theory Spec2Isabelle
  imports Complex_Main
begin

section \<open>The IcePAP trigger/gate controller\<close>

text \<open>
  A shallow embedding of \<^verbatim>\<open>sardana_icepap/ctrl/IcePAPTriggerController.py\<close>.

  Conventions of the embedding.
  \<^item> The attributes of \<^verbatim>\<open>self\<close> are the fields of the record \<open>ctrl\<close>; a leading
    underscore of the Python name is dropped (\<^verbatim>\<open>self._time_mode\<close> is \<open>time_mode\<close>).
  \<^item> A method takes the world (the controller and the trace of every call made on the
    motor-control device so far) and returns a result together with the new world. The
    world is returned also when the method raises, since an exception does not undo the
    assignments made before it.
  \<^item> An exception is a value of type \<open>error\<close>, returned under \<open>Inl\<close>.
  \<^item> The number of retries is computed in the arithmetic of doubles: a Python float is
    the real number that a finite double stands for, and every operation rounds to the
    nearest double (\<open>fl\<close>). In the trigger table, Python floats are exact real numbers:
    the table of the model is the table of the code up to the rounding of doubles.
  \<^item> The motion-device registry (taurus) and the motor-control device (icepap) are
    external; they are parameters of the methods. Every call on the device may raise,
    depending on the calls made before.
\<close>

subsection \<open>Constants\<close>

definition LOW :: string where "LOW = ''low''"
definition HIGH :: string where "HIGH = ''high''"
definition ECAM :: string where "ECAM = ''ecam''"

definition MAX_ECAM_VALUES :: int where "MAX_ECAM_VALUES = 20477"

subsection \<open>Exceptions\<close>

datatype error =
    ValueError string
  | RuntimeError string
  | ZeroDivisionError
  | IndexError
  | KeyError
  | TaurusError   \<comment> \<open>any exception raised by a lookup in the motion-device registry\<close>
  | IcepapError   \<comment> \<open>any exception raised by a call on the motor-control device\<close>

definition msg_by_time :: string where
  "msg_by_time = ''The IcePAP Trigger Controller is not allowed to generate multiple trigger synchronized by time''"

definition msg_cable :: string where
  "msg_cable = ''The motor used in the scan is not the same than the motor configure with the trigger cable''"

definition msg_capacity :: string where
  "msg_capacity = ''The Trigger by position not accept more than 20477 positions (points)''"

definition msg_send :: string where
  "msg_send = ''Can not send trigger table.''"

text \<open>\<^verbatim>\<open>str\<close> of an integer, and the message of \<^verbatim>\<open>numpy.linspace\<close> for a negative count.\<close>

fun str_nat :: "nat \<Rightarrow> string" where
  "str_nat n =
     (if n < 10 then [''0123456789'' ! n]
      else str_nat (n div 10) @ [''0123456789'' ! (n mod 10)])"

declare str_nat.simps [simp del]

definition str_int :: "int \<Rightarrow> string" where
  "str_int i = (if i < 0 then CHR ''-'' # str_nat (nat (- i)) else str_nat (nat i))"

definition msg_samples :: "int \<Rightarrow> string" where
  "msg_samples num = ''Number of samples, '' @ str_int num @ '', must be non-negative.''"

text \<open>The names the specification gives to the failures of \<^verbatim>\<open>SynchOne\<close>.\<close>

definition ConfigurationError_by_time :: error where
  "ConfigurationError_by_time = ValueError msg_by_time"

definition ConfigurationError_cable :: error where
  "ConfigurationError_cable = RuntimeError msg_cable"



subsection \<open>The external collaborators\<close>

text \<open>
  The registry: \<open>ctrl_props\<close> is the host and port of a motor-control device,
  \<open>axis_prop\<close> the electrical axis of a motor (\<^verbatim>\<open>taurus.Device(name)\<close> followed by
  \<^verbatim>\<open>get_property('axis')\<close>), \<open>calib\<close> its attributes
  \<^verbatim>\<open>step_per_unit\<close>, \<^verbatim>\<open>offset\<close> and \<^verbatim>\<open>sign\<close>. \<open>None\<close> stands for a lookup that raises.
\<close>

record registry =
  ctrl_props :: "string \<Rightarrow> (string \<times> int) option"
  axis_prop :: "string \<Rightarrow> int option"
  calib :: "string \<Rightarrow> (real \<times> real \<times> real) option"

text \<open>
  The calls the controller makes on the device, and \<^verbatim>\<open>time.sleep\<close>. The axis is the
  value of \<^verbatim>\<open>self._motor_axis\<close> at the call, which is \<^verbatim>\<open>None\<close> before the first
  configuration. \<^verbatim>\<open>motor.syncaux = value\<close> is \<open>SetAttr axis ''syncaux'' value\<close>.
\<close>

datatype effect =
    SetAttr "int option" string "string list"
  | GetSyncaux "int option"
  | GetState "int option"
  | GetPmux
  | ClearPmux string
  | AddPmux "int option" string bool bool bool
  | SetEcamTable "int option" "real list"
  | Sleep real

record hw_state =
  is_poweron :: bool
  is_moving :: bool
  is_settling :: bool

text \<open>
  A device is its behaviour: given the calls made so far, whether the next call raises,
  and what a state read and a multiplexer read return.
\<close>

record icepap =
  raises :: "effect list \<Rightarrow> effect \<Rightarrow> bool"
  state_reply :: "effect list \<Rightarrow> hw_state"
  pmux_reply :: "effect list \<Rightarrow> string list"

subsection \<open>The controller\<close>

record props =
  IcepapController :: string
  DefaultMotor :: string
  UseMasterOut :: bool
  AxisInfos :: string
  Timeout :: real

record ctrl = props +
  time_mode :: bool
  start_trigger_only :: bool
  use_master_out :: bool
  axis_info_list :: "string list"
  retries_nr :: int
  ipap :: "string \<times> int"
  last_motor_name :: "string option"
  motor_axis :: "int option"
  motor_spu :: real
  motor_offset :: real
  motor_sign :: real

record world =
  self :: ctrl
  trace :: "effect list"

text \<open>
  The state of the trigger/gate that the host runtime reads (\<^verbatim>\<open>sardana.State\<close>).
\<close>

datatype State =
    On | Off | Close | Open | Insert | Extract | Moving | Standby | Fault | Init
  | Running | Alarm | Disable | Unknown | Invalid

subsection \<open>Construction\<close>

text \<open>\<^verbatim>\<open>str.split(',')\<close> and \<^verbatim>\<open>str.strip\<close>, on ASCII strings.\<close>

fun split_on :: "char \<Rightarrow> string \<Rightarrow> string list" where
  "split_on c [] = [[]]"
| "split_on c (x # xs) =
     (if x = c then [] # split_on c xs
      else (case split_on c xs of
              [] \<Rightarrow> [[x]]
            | y # ys \<Rightarrow> (x # y) # ys))"

definition isspace :: "char \<Rightarrow> bool" where
  "isspace c =
     (let n = (of_char c :: nat) in (9 \<le> n \<and> n \<le> 13) \<or> (28 \<le> n \<and> n \<le> 32))"

definition strip :: "string \<Rightarrow> string" where
  "strip s = rev (dropWhile isspace (rev (dropWhile isspace s)))"

text \<open>
  The arithmetic of doubles. \<open>fl x\<close> is the double nearest to \<open>x\<close>, ties to the even
  mantissa, for \<open>x\<close> in the range of the normal doubles: \<open>u\<close> is the distance between
  the doubles around \<open>x\<close>. \<open>d01\<close> is the double that the literal \<^verbatim>\<open>0.1\<close> denotes.
\<close>

definition round_even :: "real \<Rightarrow> int" where
  "round_even y =
     (let f = \<lfloor>y\<rfloor>
      in if y - of_int f < 1 / 2 then f
         else if 1 / 2 < y - of_int f then f + 1
         else if even f then f else f + 1)"

definition fl :: "real \<Rightarrow> real" where
  "fl x =
     (if x = 0 then 0
      else (let u = 2 powr (of_int \<lfloor>log 2 \<bar>x\<bar>\<rfloor> - 52)
            in u * of_int (round_even (x / u))))"

definition d01 :: real where
  "d01 = 3602879701896397 / 2 ^ 55"

text \<open>
  \<^verbatim>\<open>int(x)\<close> of a float truncates towards zero, and so does the quotient of C's
  \<^verbatim>\<open>fmod\<close>, which is exact.
\<close>

definition trunc :: "real \<Rightarrow> int" where
  "trunc r = (if 0 \<le> r then \<lfloor>r\<rfloor> else \<lceil>r\<rceil>)"

definition fmod :: "real \<Rightarrow> real \<Rightarrow> real" where
  "fmod v w = v - w * of_int (trunc (v / w))"

text \<open>
  The floor division of two floats, \<^verbatim>\<open>vx // wx\<close>, as the interpreter computes it: the
  remainder by \<^verbatim>\<open>fmod\<close>, the quotient \<^verbatim>\<open>(vx - mod) / wx\<close> in doubles, one less when the
  remainder and the divisor differ in sign, then snapped to the nearest whole number.
  The difference \<open>dv - f\<close> and the sum \<open>f + 1\<close> are exact in doubles when \<open>dv\<close> is not
  whole. Division by zero raises.
\<close>

definition float_floor_div :: "real \<Rightarrow> real \<Rightarrow> error + real" where
  "float_floor_div vx wx =
     (if wx = 0 then Inl ZeroDivisionError
      else (let md = fmod vx wx;
                div0 = fl (fl (vx - md) / wx);
                dv = (if md \<noteq> 0 \<and> ((wx < 0) \<noteq> (md < 0)) then fl (div0 - 1) else div0);
                floordiv = (if dv \<noteq> 0
                            then (let f = of_int \<lfloor>dv\<rfloor>
                                  in if 1 / 2 < dv - f then f + 1 else f)
                            else 0)
            in Inr floordiv))"

text \<open>
  Lines 115-120: the number of retries, from the timeout of the socket and the default
  timeout of the host runtime (3 s): \<^verbatim>\<open>3 // (self.Timeout + 0.1)\<close>, 1 when that is 0,
  then \<^verbatim>\<open>int\<close>. The timeout is a finite double.
\<close>

definition retries_nr_of :: "real \<Rightarrow> error + int" where
  "retries_nr_of timeout =
     (case float_floor_div 3 (fl (timeout + d01)) of
        Inl e \<Rightarrow> Inl e
      | Inr r \<Rightarrow> Inr (trunc (if r = 0 then 1 else r)))"

definition init :: "registry \<Rightarrow> props \<Rightarrow> error + ctrl" where
  "init reg p =
     (case retries_nr_of (Timeout p) of
        Inl e \<Rightarrow> Inl e
      | Inr n \<Rightarrow>
          (case ctrl_props reg (IcepapController p) of
             None \<Rightarrow> Inl TaurusError
           | Some hp \<Rightarrow>
               Inr (props.extend p
                 (ctrl.fields False False (UseMasterOut p)
                    (map strip (split_on CHR '','' (AxisInfos p)))
                    n hp None None 1 0 1))))"

subsection \<open>Calls on the device\<close>

text \<open>
  One call on the device: it is recorded in the trace, whether it raises or not.
\<close>

definition call :: "icepap \<Rightarrow> effect \<Rightarrow> world \<Rightarrow> (error + unit) \<times> world" where
  "call dev e w =
     (if raises dev (trace w) e then Inl IcepapError else Inr (),
      w\<lparr>trace := trace w @ [e]\<rparr>)"

text \<open>
  Lines 134-142, \<^verbatim>\<open>_set_out\<close>. The loop over \<^verbatim>\<open>self._axis_info_list\<close> is \<open>set_infos\<close>;
  the last call is the read of \<^verbatim>\<open>motor.syncaux\<close> that \<^verbatim>\<open>print\<close> makes.
\<close>

fun set_infos :: "icepap \<Rightarrow> string list \<Rightarrow> string list \<Rightarrow> world \<Rightarrow> (error + unit) \<times> world" where
  "set_infos dev [] val w = (Inr (), w)"
| "set_infos dev (info_out # rest) val w =
     (case call dev (SetAttr (motor_axis (self w)) info_out val) w of
        (Inl e, w') \<Rightarrow> (Inl e, w')
      | (Inr u, w') \<Rightarrow> set_infos dev rest val w')"

definition set_out :: "icepap \<Rightarrow> string \<Rightarrow> world \<Rightarrow> (error + unit) \<times> world" where
  "set_out dev out w =
     (let val = [out, ''normal'']
      in (case (if use_master_out (self w)
                then call dev (SetAttr (motor_axis (self w)) ''syncaux'' val) w
                else set_infos dev (axis_info_list (self w)) val w) of
            (Inl e, w') \<Rightarrow> (Inl e, w')
          | (Inr u, w') \<Rightarrow> call dev (GetSyncaux (motor_axis (self w'))) w'))"

subsection \<open>The calibration resolver\<close>

text \<open>
  Lines 163-167: the loop that clears the assignment of the shared line, if the
  multiplexer reports one. \<open>contains sub s\<close> is \<^verbatim>\<open>sub in s\<close>.
\<close>

fun contains :: "string \<Rightarrow> string \<Rightarrow> bool" where
  "contains sub [] = (sub = [])"
| "contains sub (x # xs) = (take (length sub) (x # xs) = sub \<or> contains sub xs)"

fun clear_E0 :: "icepap \<Rightarrow> string list \<Rightarrow> world \<Rightarrow> (error + unit) \<times> world" where
  "clear_E0 dev [] w = (Inr (), w)"
| "clear_E0 dev (p # ps) w =
     (if contains ''E0'' p then call dev (ClearPmux ''e0'') w else clear_E0 dev ps w)"

text \<open>
  Lines 144-172, \<^verbatim>\<open>_configureMotor\<close>. The name is stored in \<^verbatim>\<open>self._last_motor_name\<close>
  (line 151) before it is compared with \<^verbatim>\<open>self._last_motor_name\<close> (line 158).
\<close>

definition configureMotor :: "registry \<Rightarrow> icepap \<Rightarrow> string option \<Rightarrow> world \<Rightarrow> (error + unit) \<times> world" where
  "configureMotor reg dev motor_name0 w =
     (let motor_name = (case motor_name0 of None \<Rightarrow> DefaultMotor (self w) | Some m \<Rightarrow> m);
          w1 = w\<lparr>self := (self w)\<lparr>last_motor_name := Some motor_name\<rparr>\<rparr>
      in (case axis_prop reg motor_name of
            None \<Rightarrow> (Inl TaurusError, w1)
          | Some a \<Rightarrow>
              (let w2 = w1\<lparr>self := (self w1)\<lparr>motor_axis := Some a\<rparr>\<rparr>
               in (case calib reg motor_name of
                     None \<Rightarrow> (Inl TaurusError, w2)
                   | Some (spu, off, sg) \<Rightarrow>
                       (let w3 = w2\<lparr>self := (self w2)
                                   \<lparr>motor_spu := spu, motor_offset := off, motor_sign := sg\<rparr>\<rparr>
                        in if Some motor_name = last_motor_name (self w3) then (Inr (), w3)
                           else if use_master_out (self w3) then
                             (case call dev GetPmux w3 of
                                (Inl e, w4) \<Rightarrow> (Inl e, w4)
                              | (Inr u, w4) \<Rightarrow>
                                  (case clear_E0 dev (pmux_reply dev (trace w3)) w4 of
                                     (Inl e, w5) \<Rightarrow> (Inl e, w5)
                                   | (Inr u, w5) \<Rightarrow>
                                       (case call dev (AddPmux (motor_axis (self w5)) ''e0''
                                                         False True True) w5 of
                                          (Inl e, w6) \<Rightarrow> (Inl e, w6)
                                        | (Inr u, w6) \<Rightarrow> call dev GetPmux w6)))
                           else (Inr (), w3))))))"

subsection \<open>The lifecycle\<close>

text \<open>
  Lines 178-183: the loop of \<^verbatim>\<open>StateOne\<close>, with the number of iterations left. A read
  that raises is logged and the loop goes on; the first read that succeeds ends it.
\<close>

fun read_state :: "icepap \<Rightarrow> nat \<Rightarrow> world \<Rightarrow> hw_state option \<times> world" where
  "read_state dev 0 w = (None, w)"
| "read_state dev (Suc n) w =
     (case call dev (GetState (motor_axis (self w))) w of
        (Inl e, w') \<Rightarrow> read_state dev n w'
      | (Inr u, w') \<Rightarrow> (Some (state_reply dev (trace w)), w'))"

text \<open>Lines 174-195. \<^verbatim>\<open>range(n)\<close> is empty when \<^verbatim>\<open>n\<close> is not positive.\<close>

definition StateOne :: "icepap \<Rightarrow> int \<Rightarrow> world \<Rightarrow> (error + State \<times> string) \<times> world" where
  "StateOne dev axis w =
     (case read_state dev (nat (retries_nr (self w))) w of
        (None, w') \<Rightarrow>
          (Inr (Alarm, ''The motor is power off or not possible to read State''), w')
      | (Some hw, w') \<Rightarrow>
          (if \<not> is_poweron hw
           then (Inr (Alarm, ''The motor is power off or not possible to read State''), w')
           else if is_moving hw \<or> is_settling hw
           then (Inr (Moving, ''Moving''), w')
           else (Inr (On, ''Motor is not generating triggers.''), w')))"

text \<open>Lines 197-204. The parameter \<^verbatim>\<open>value\<close> of the method is not used.\<close>

definition PreStartOne :: "icepap \<Rightarrow> int \<Rightarrow> world \<Rightarrow> (error + bool) \<times> world" where
  "PreStartOne dev axis w =
     (case (if time_mode (self w) then set_out dev LOW w else set_out dev ECAM w) of
        (Inl e, w') \<Rightarrow> (Inl e, w')
      | (Inr u, w') \<Rightarrow> (Inr True, w'))"

text \<open>Lines 206-212. \<^verbatim>\<open>time.sleep(0.01)\<close> is the effect \<open>Sleep (1 / 100)\<close>.\<close>

definition StartOne :: "icepap \<Rightarrow> int \<Rightarrow> world \<Rightarrow> (error + unit) \<times> world" where
  "StartOne dev axis w =
     (if \<not> time_mode (self w) then (Inr (), w)
      else (case set_out dev HIGH w of
              (Inl e, w1) \<Rightarrow> (Inl e, w1)
            | (Inr u, w1) \<Rightarrow>
                set_out dev LOW (w1\<lparr>trace := trace w1 @ [Sleep (1 / 100)]\<rparr>)))"

text \<open>Lines 214-217.\<close>

definition AbortOne :: "icepap \<Rightarrow> int \<Rightarrow> world \<Rightarrow> (error + unit) \<times> world" where
  "AbortOne dev axis w = set_out dev LOW w"

subsection \<open>The trigger table generator\<close>

text \<open>
  The request: \<^verbatim>\<open>configuration\<close> is a list of groups; a group maps
  \<^verbatim>\<open>SynchParam.Repeats\<close> to a number of points, and \<^verbatim>\<open>SynchParam.Initial\<close> and
  \<^verbatim>\<open>SynchParam.Total\<close>, when it has them, to a dictionary from domains to values.
\<close>

datatype SynchDomain = Time | Position

record synch_group =
  Repeats :: int
  Initial :: "(SynchDomain \<Rightarrow> real option) option"
  Total :: "(SynchDomain \<Rightarrow> real option) option"

text \<open>
  \<^verbatim>\<open>numpy.linspace(start, stop, num)\<close>, as the library computes it: the multiples of
  the step, shifted by \<open>start\<close>, the last one replaced by \<open>stop\<close> when there are two
  samples or more. A negative number of samples raises.
\<close>

definition linspace :: "real \<Rightarrow> real \<Rightarrow> int \<Rightarrow> error + real list" where
  "linspace start stop num =
     (if num < 0 then Inl (ValueError (msg_samples num))
      else (let n = nat num;
                dv = n - 1;
                delta = stop - start;
                y = (if 0 < dv then map (\<lambda>i. real i * (delta / real dv)) [0..<n]
                     else map (\<lambda>i. real i * delta) [0..<n]);
                y' = map (\<lambda>v. v + start) y
            in Inr (if 1 < n then y'[n - 1 := stop] else y')))"

text \<open>
  Lines 239-304 of \<^verbatim>\<open>SynchOne\<close>: everything up to the trigger table. The result is
  \<open>None\<close> when the method returns at line 259, without a table, and the table otherwise.
\<close>

definition SynchOne_table ::
  "registry \<Rightarrow> icepap \<Rightarrow> int \<Rightarrow> synch_group list \<Rightarrow> world \<Rightarrow> (error + real list option) \<times> world" where
  "SynchOne_table reg dev axis configuration w =
     (case configuration of
        [] \<Rightarrow> (Inl IndexError, w)
      | synch_group # others \<Rightarrow>
          (let nr_points = Repeats synch_group
           in (case Initial synch_group of
                 None \<Rightarrow>
                   (if 1 < nr_points then (Inl (ValueError msg_by_time), w)
                    else (let w1 = w\<lparr>self := (self w)\<lparr>time_mode := True\<rparr>\<rparr>
                          in if \<not> use_master_out (self w1) \<and>
                                last_motor_name (self w1) \<noteq> Some (DefaultMotor (self w1))
                             then (Inl (RuntimeError msg_cable), w1)
                             else (case configureMotor reg dev (last_motor_name (self w1)) w1 of
                                     (Inl e, w2) \<Rightarrow> (Inl e, w2)
                                   | (Inr u, w2) \<Rightarrow> (Inr None, w2))))
               | Some initial_d \<Rightarrow>
                   (let w1 = w\<lparr>self := (self w)\<lparr>time_mode := False\<rparr>\<rparr>;
                        master = last_motor_name (self w1)
                    in if \<not> use_master_out (self w1) \<and>
                          master \<noteq> Some (DefaultMotor (self w1))
                       then (Inl (RuntimeError msg_cable), w1)
                       else (case configureMotor reg dev master w1 of
                               (Inl e, w2) \<Rightarrow> (Inl e, w2)
                             | (Inr u, w2) \<Rightarrow>
                                 (case initial_d Position of
                                    None \<Rightarrow> (Inl KeyError, w2)
                                  | Some start_user0 \<Rightarrow>
                                      (case Total synch_group of
                                         None \<Rightarrow> (Inl KeyError, w2)
                                       | Some total_d \<Rightarrow>
                                           (case total_d Position of
                                              None \<Rightarrow> (Inl KeyError, w2)
                                            | Some delta_user \<Rightarrow>
     (let start_user = start_user0 - motor_offset (self w2)
      in if motor_sign (self w2) = 0 then (Inl ZeroDivisionError, w2)
         else (let start = start_user * motor_spu (self w2) / motor_sign (self w2);
                   delta = delta_user * motor_spu (self w2) / motor_sign (self w2);
                   end' = start + delta * real_of_int nr_points
               in if start_trigger_only (self w2) then (Inr (Some [start]), w2)
                  else if MAX_ECAM_VALUES < nr_points
                  then (Inl (RuntimeError msg_capacity), w2)
                  else (case linspace start (end' - delta) nr_points of
                          Inl e \<Rightarrow> (Inl e, w2)
                        | Inr trigger_table \<Rightarrow> (Inr (Some trigger_table), w2))))))))))))"

text \<open>
  Lines 306-316 of \<^verbatim>\<open>SynchOne\<close>: the upload, with the number of iterations left.
\<close>

fun send_table :: "icepap \<Rightarrow> nat \<Rightarrow> real list \<Rightarrow> world \<Rightarrow> (error + unit) \<times> world" where
  "send_table dev 0 trigger_table w = (Inl (RuntimeError msg_send), w)"
| "send_table dev (Suc n) trigger_table w =
     (case call dev (SetEcamTable (motor_axis (self w)) trigger_table) w of
        (Inl e, w') \<Rightarrow> send_table dev n trigger_table w'
      | (Inr u, w') \<Rightarrow> (Inr (), w'))"

text \<open>Lines 239-316, \<^verbatim>\<open>SynchOne\<close>.\<close>

definition SynchOne ::
  "registry \<Rightarrow> icepap \<Rightarrow> int \<Rightarrow> synch_group list \<Rightarrow> world \<Rightarrow> (error + unit) \<times> world" where
  "SynchOne reg dev axis configuration w =
     (case SynchOne_table reg dev axis configuration w of
        (Inl e, w') \<Rightarrow> (Inl e, w')
      | (Inr None, w') \<Rightarrow> (Inr (), w')
      | (Inr (Some trigger_table), w') \<Rightarrow>
          send_table dev (nat (retries_nr (self w'))) trigger_table w')"

subsection \<open>The extra parameters of the axis\<close>

text \<open>Lines 321-331.\<close>

definition setMasterMotor :: "registry \<Rightarrow> icepap \<Rightarrow> int \<Rightarrow> string option \<Rightarrow> world \<Rightarrow> (error + unit) \<times> world" where
  "setMasterMotor reg dev axis v w = configureMotor reg dev v w"

definition getMasterMotor :: "int \<Rightarrow> world \<Rightarrow> string option" where
  "getMasterMotor axis w = last_motor_name (self w)"


definition getStartTriggerOnly :: "int \<Rightarrow> world \<Rightarrow> bool" where
  "getStartTriggerOnly axis w = start_trigger_only (self w)"

subsection \<open>Reading a trace\<close>

text \<open>
  The calls that \<^verbatim>\<open>_set_out\<close> makes when none of them raises: the write of the master
  output, or of every auxiliary output of the list, then the read of \<^verbatim>\<open>syncaux\<close>.
\<close>

definition set_out_calls :: "ctrl \<Rightarrow> string \<Rightarrow> effect list" where
  "set_out_calls c out =
     (if use_master_out c then [SetAttr (motor_axis c) ''syncaux'' [out, ''normal'']]
      else map (\<lambda>info_out. SetAttr (motor_axis c) info_out [out, ''normal''])
             (axis_info_list c))
     @ [GetSyncaux (motor_axis c)]"

text \<open>
  The calls \<open>es\<close>, made one after the other on the device after the trace \<open>tr\<close>, all
  succeed. \<^verbatim>\<open>time.sleep\<close> is not a call on the device and does not raise.
\<close>

fun calls_ok :: "icepap \<Rightarrow> effect list \<Rightarrow> effect list \<Rightarrow> bool" where
  "calls_ok dev tr [] = True"
| "calls_ok dev tr (Sleep t # es) = calls_ok dev (tr @ [Sleep t]) es"
| "calls_ok dev tr (e # es) = (\<not> raises dev tr e \<and> calls_ok dev (tr @ [e]) es)"


text \<open>
  A call that leaves the multiplexer and the comparator table of the device alone: a
  write of one of the output registers \<open>regs\<close>, a read, or a pause.
\<close>

fun output_call :: "string list \<Rightarrow> effect \<Rightarrow> bool" where
  "output_call regs (SetAttr ax r v) = (r \<in> set regs)"
| "output_call regs (ClearPmux l) = False"
| "output_call regs (AddPmux ax l p a h) = False"
| "output_call regs (SetEcamTable ax t) = False"
| "output_call regs e = True"

text \<open>A call that changes the multiplexer; an upload of a trigger table.\<close>

fun is_pmux_write :: "effect \<Rightarrow> bool" where
  "is_pmux_write (ClearPmux l) = True"
| "is_pmux_write (AddPmux ax l p a h) = True"
| "is_pmux_write e = False"

fun is_upload :: "effect \<Rightarrow> bool" where
  "is_upload (SetEcamTable ax t) = True"
| "is_upload e = False"

subsection \<open>Concrete controllers, devices and requests\<close>

text \<open>
  A registry with the device \<open>ipap\<close> and two motors: \<open>m1\<close> on axis 1 with 1000 steps
  per unit, offset 0 and sign 1, and \<open>m2\<close> on axis 2 with sign -1.
\<close>

definition reg_m :: registry where
  "reg_m = \<lparr>ctrl_props = (\<lambda>n. if n = ''ipap'' then Some (''icepap01'', 5000) else None),
            axis_prop = (\<lambda>m. if m = ''m1'' then Some 1 else if m = ''m2'' then Some 2 else None),
            calib = (\<lambda>m. if m = ''m1'' then Some (1000, 0, 1)
                          else if m = ''m2'' then Some (1000, 0, - 1) else None)\<rparr>"

text \<open>A device that answers every call, powered and at rest; a device that never answers.\<close>

definition dev_ok :: icepap where
  "dev_ok = \<lparr>raises = (\<lambda>tr e. False),
             state_reply = (\<lambda>tr. \<lparr>is_poweron = True, is_moving = False, is_settling = False\<rparr>),
             pmux_reply = (\<lambda>tr. [])\<rparr>"

definition dev_down :: icepap where
  "dev_down = \<lparr>raises = (\<lambda>tr e. True),
               state_reply = (\<lambda>tr. \<lparr>is_poweron = True, is_moving = False, is_settling = False\<rparr>),
               pmux_reply = (\<lambda>tr. [])\<rparr>"

text \<open>A device on which the calls that change the multiplexer raise, and no other.\<close>

definition dev_pmux_down :: icepap where
  "dev_pmux_down = \<lparr>raises = (\<lambda>tr e. is_pmux_write e),
                    state_reply = (\<lambda>tr. \<lparr>is_poweron = True, is_moving = False, is_settling = False\<rparr>),
                    pmux_reply = (\<lambda>tr. [])\<rparr>"

text \<open>A device that answers every call and reports a moving motor.\<close>

definition dev_moving :: icepap where
  "dev_moving = \<lparr>raises = (\<lambda>tr e. False),
                 state_reply = (\<lambda>tr. \<lparr>is_poweron = True, is_moving = True, is_settling = False\<rparr>),
                 pmux_reply = (\<lambda>tr. [])\<rparr>"

definition props_master :: props where
  "props_master = \<lparr>IcepapController = ''ipap'', DefaultMotor = ''m1'', UseMasterOut = True,
                    AxisInfos = ''InfoA'', Timeout = 1 / 2\<rparr>"

text \<open>The same properties with a negative timeout.\<close>

definition props_negative :: props where
  "props_negative = props_master\<lparr>Timeout := - 1\<rparr>"

text \<open>
  The controller that \<open>init\<close> builds from \<open>props_master\<close>, the same with the auxiliary
  outputs, and the worlds in which nothing has been called yet.
\<close>

definition ctrl_master :: ctrl where
  "ctrl_master = \<lparr>IcepapController = ''ipap'', DefaultMotor = ''m1'', UseMasterOut = True,
                   AxisInfos = ''InfoA'', Timeout = 1 / 2,
                   time_mode = False, start_trigger_only = False, use_master_out = True,
                   axis_info_list = [''InfoA''], retries_nr = 5, ipap = (''icepap01'', 5000),
                   last_motor_name = None, motor_axis = None,
                   motor_spu = 1, motor_offset = 0, motor_sign = 1\<rparr>"

definition ctrl_aux :: ctrl where
  "ctrl_aux = ctrl_master\<lparr>UseMasterOut := False, use_master_out := False\<rparr>"

definition w_master :: world where
  "w_master = \<lparr>self = ctrl_master, trace = []\<rparr>"

definition w_aux :: world where
  "w_aux = \<lparr>self = ctrl_aux, trace = []\<rparr>"

text \<open>The controller after \<^verbatim>\<open>setMasterMotor\<close> has bound \<open>m1\<close>.\<close>

definition ctrl_m1 :: ctrl where
  "ctrl_m1 = ctrl_master\<lparr>last_motor_name := Some ''m1'', motor_axis := Some 1,
                          motor_spu := 1000, motor_offset := 0, motor_sign := 1\<rparr>"

definition w_m1 :: world where
  "w_m1 = \<lparr>self = ctrl_m1, trace = []\<rparr>"

text \<open>
  The same controller in time mode, with the flag of the single start trigger, and
  wired through the auxiliary outputs while bound to \<open>m2\<close>.
\<close>

definition w_time :: world where
  "w_time = \<lparr>self = ctrl_m1\<lparr>time_mode := True\<rparr>, trace = []\<rparr>"

definition w_start_only :: world where
  "w_start_only = \<lparr>self = ctrl_m1\<lparr>start_trigger_only := True\<rparr>, trace = []\<rparr>"

definition w_aux_m2 :: world where
  "w_aux_m2 = \<lparr>self = ctrl_aux\<lparr>last_motor_name := Some ''m2'', motor_axis := Some 2,
                                     motor_spu := 1000, motor_offset := 0, motor_sign := - 1\<rparr>,
               trace = []\<rparr>"

text \<open>
  Requests: by position from 0 with a total of \<open>d\<close> per point and \<open>n\<close> points, and by
  time with \<open>n\<close> points.
\<close>

definition req_pos :: "real \<Rightarrow> int \<Rightarrow> synch_group" where
  "req_pos d n = \<lparr>Repeats = n,
                  Initial = Some (\<lambda>k. if k = Position then Some 0 else None),
                  Total = Some (\<lambda>k. if k = Position then Some d else None)\<rparr>"

definition req_time :: "int \<Rightarrow> synch_group" where
  "req_time n = \<lparr>Repeats = n, Initial = None, Total = None\<rparr>"

section \<open>Properties\<close>

subsection \<open>Calls on the device and the output driver\<close>

lemma call_self: "self (snd (call dev e w)) = self w"
  by (simp add: call_def)

lemma call_trace: "trace (snd (call dev e w)) = trace w @ [e]"
  by (simp add: call_def)

lemma set_infos_self: "self (snd (set_infos dev infos v w)) = self w"
proof (induction infos arbitrary: w)
  case Nil
  show ?case by simp
next
  case (Cons i rest)
  show ?case
  proof (cases "raises dev (trace w) (SetAttr (motor_axis (self w)) i v)")
    case True
    then show ?thesis by (simp add: call_def)
  next
    case False
    then show ?thesis using Cons.IH by (simp add: call_def)
  qed
qed

lemma set_infos_trace:
  "set infos \<subseteq> set regs \<Longrightarrow>
   \<exists>es. trace (snd (set_infos dev infos v w)) = trace w @ es \<and> list_all (output_call regs) es"
proof (induction infos arbitrary: w)
  case Nil
  show ?case by simp
next
  case (Cons i rest)
  let ?e = "SetAttr (motor_axis (self w)) i v"
  let ?w' = "w\<lparr>trace := trace w @ [?e]\<rparr>"
  have reg: "output_call regs ?e" using Cons.prems by simp
  show ?case
  proof (cases "raises dev (trace w) ?e")
    case True
    then have "trace (snd (set_infos dev (i # rest) v w)) = trace w @ [?e]"
      by (simp add: call_def)
    with reg show ?thesis by simp
  next
    case False
    then have eq: "set_infos dev (i # rest) v w = set_infos dev rest v ?w'"
      by (simp add: call_def)
    from Cons.prems have "set rest \<subseteq> set regs" by simp
    from Cons.IH [OF this, of ?w'] obtain es where
      es: "trace (snd (set_infos dev rest v ?w')) = trace ?w' @ es" "list_all (output_call regs) es"
      by blast
    have "trace (snd (set_infos dev (i # rest) v w)) = trace w @ (?e # es)"
      using eq es(1) by simp
    moreover have "list_all (output_call regs) (?e # es)" using reg es(2) by simp
    ultimately show ?thesis by blast
  qed
qed

lemma set_out_self: "self (snd (set_out dev out w)) = self w"
proof -
  let ?val = "[out, ''normal'']"
  let ?first = "if use_master_out (self w)
                then call dev (SetAttr (motor_axis (self w)) ''syncaux'' ?val) w
                else set_infos dev (axis_info_list (self w)) ?val w"
  obtain r w1 where first: "?first = (r, w1)" by (cases ?first)
  have "self (snd ?first) = self w" by (simp add: call_self set_infos_self)
  with first have w1: "self w1 = self w" by simp
  show ?thesis
  proof (cases r)
    case (Inl e)
    with first w1 show ?thesis by (simp add: set_out_def)
  next
    case (Inr u)
    with first w1 show ?thesis by (simp add: set_out_def call_self)
  qed
qed

lemma set_out_trace:
  assumes "set (''syncaux'' # axis_info_list (self w)) \<subseteq> set regs"
  shows "\<exists>es. trace (snd (set_out dev out w)) = trace w @ es \<and> list_all (output_call regs) es"
proof -
  let ?val = "[out, ''normal'']"
  let ?first = "if use_master_out (self w)
                then call dev (SetAttr (motor_axis (self w)) ''syncaux'' ?val) w
                else set_infos dev (axis_info_list (self w)) ?val w"
  obtain r w1 where first: "?first = (r, w1)" by (cases ?first)
  have "\<exists>es. trace (snd ?first) = trace w @ es \<and> list_all (output_call regs) es"
  proof (cases "use_master_out (self w)")
    case True
    then have "trace (snd ?first) = trace w @ [SetAttr (motor_axis (self w)) ''syncaux'' ?val]"
      by (simp add: call_trace)
    moreover have "list_all (output_call regs) [SetAttr (motor_axis (self w)) ''syncaux'' ?val]"
      using assms by simp
    ultimately show ?thesis by blast
  next
    case False
    from assms have "set (axis_info_list (self w)) \<subseteq> set regs" by simp
    from set_infos_trace [OF this] False show ?thesis by simp
  qed
  with first obtain es where es: "trace w1 = trace w @ es" "list_all (output_call regs) es"
    by auto
  show ?thesis
  proof (cases r)
    case (Inl e)
    with first es show ?thesis by (simp add: set_out_def)
  next
    case (Inr u)
    with first have "trace (snd (set_out dev out w)) = trace w @ (es @ [GetSyncaux (motor_axis (self w1))])"
      using es(1) by (simp add: set_out_def call_trace)
    moreover have "list_all (output_call regs) (es @ [GetSyncaux (motor_axis (self w1))])"
      using es(2) by simp
    ultimately show ?thesis by blast
  qed
qed

lemma read_state_self: "self (snd (read_state dev n w)) = self w"
proof (induction n arbitrary: w)
  case 0
  show ?case by simp
next
  case (Suc n)
  show ?case
  proof (cases "raises dev (trace w) (GetState (motor_axis (self w)))")
    case True
    then show ?thesis using Suc.IH by (simp add: call_def)
  next
    case False
    then show ?thesis by (simp add: call_def)
  qed
qed

lemma read_state_trace:
  "\<exists>k. trace (snd (read_state dev n w)) = trace w @ replicate k (GetState (motor_axis (self w)))"
proof (induction n arbitrary: w)
  case 0
  have "trace w = trace w @ replicate 0 (GetState (motor_axis (self w)))" by simp
  then show ?case by (simp del: replicate.simps) 
next
  case (Suc n)
  let ?e = "GetState (motor_axis (self w))"
  let ?w' = "w\<lparr>trace := trace w @ [?e]\<rparr>"
  show ?case
  proof (cases "raises dev (trace w) ?e")
    case True
    from Suc.IH [of ?w'] obtain k where
      "trace (snd (read_state dev n ?w')) = trace ?w' @ replicate k ?e" by auto
    then have "trace (snd (read_state dev (Suc n) w)) = trace w @ replicate (Suc k) ?e"
      using True by (simp add: call_def replicate_app_Cons_same)
    then show ?thesis by blast
  next
    case False
    then have "trace (snd (read_state dev (Suc n) w)) = trace w @ replicate (Suc 0) ?e"
      by (simp add: call_def)
    then show ?thesis by blast
  qed
qed

lemma read_state_all_fail:
  "(\<forall>k<n. raises dev (trace w @ replicate k (GetState (motor_axis (self w))))
                    (GetState (motor_axis (self w)))) \<Longrightarrow>
   read_state dev n w = (None, w\<lparr>trace := trace w @ replicate n (GetState (motor_axis (self w)))\<rparr>)"
proof (induction n arbitrary: w)
  case 0
  show ?case by simp
next
  case (Suc n)
  let ?e = "GetState (motor_axis (self w))"
  let ?w' = "w\<lparr>trace := trace w @ [?e]\<rparr>"
  from Suc.prems have r0: "raises dev (trace w) ?e" by force
  have "\<forall>k<n. raises dev (trace ?w' @ replicate k ?e) ?e"
  proof (intro allI impI)
    fix k assume "k < n"
    then have "Suc k < Suc n" by simp
    with Suc.prems have "raises dev (trace w @ replicate (Suc k) ?e) ?e" by blast
    then show "raises dev (trace ?w' @ replicate k ?e) ?e" by simp
  qed
  then have "read_state dev n ?w' = (None, ?w'\<lparr>trace := trace ?w' @ replicate n ?e\<rparr>)"
    using Suc.IH [of ?w'] by simp
  with r0 show ?case by (simp add: call_def)
qed

lemma read_state_first_ok:
  "k < n \<Longrightarrow>
   (\<forall>j<k. raises dev (trace w @ replicate j (GetState (motor_axis (self w))))
                    (GetState (motor_axis (self w)))) \<Longrightarrow>
   \<not> raises dev (trace w @ replicate k (GetState (motor_axis (self w))))
              (GetState (motor_axis (self w))) \<Longrightarrow>
   read_state dev n w =
     (Some (state_reply dev (trace w @ replicate k (GetState (motor_axis (self w))))),
      w\<lparr>trace := trace w @ replicate (Suc k) (GetState (motor_axis (self w)))\<rparr>)"
proof (induction n arbitrary: w k)
  case 0
  then show ?case by simp
next
  case (Suc n)
  let ?e = "GetState (motor_axis (self w))"
  let ?w' = "w\<lparr>trace := trace w @ [?e]\<rparr>"
  show ?case
  proof (cases k)
    case 0
    with Suc.prems show ?thesis by (simp add: call_def)
  next
    case (Suc k')
    with Suc.prems have r0: "raises dev (trace w) ?e" by force
    have lt: "k' < n" using Suc Suc.prems by simp
    have fails: "\<forall>j<k'. raises dev (trace ?w' @ replicate j ?e) ?e"
    proof (intro allI impI)
      fix j assume "j < k'"
      then have "Suc j < k" using Suc by simp
      with Suc.prems have "raises dev (trace w @ replicate (Suc j) ?e) ?e" by blast
      then show "raises dev (trace ?w' @ replicate j ?e) ?e" by simp
    qed
    have ok: "\<not> raises dev (trace ?w' @ replicate k' ?e) ?e"
      using Suc.prems(3) Suc by simp
    have "read_state dev n ?w' =
       (Some (state_reply dev (trace ?w' @ replicate k' ?e)),
        ?w'\<lparr>trace := trace ?w' @ replicate (Suc k') ?e\<rparr>)"
      using Suc.IH [of k' ?w', OF lt] fails ok by simp
    with r0 Suc show ?thesis by (simp add: call_def)
  qed
qed

subsection \<open>The calibration resolver and the table\<close>

lemma configureMotor_resolved:
  assumes "axis_prop reg (case mn of None \<Rightarrow> DefaultMotor (self w) | Some m \<Rightarrow> m) = Some a"
    and "calib reg (case mn of None \<Rightarrow> DefaultMotor (self w) | Some m \<Rightarrow> m) = Some (spu, off, sg)"
  shows "configureMotor reg dev mn w =
           (Inr (), w\<lparr>self := (self w)
              \<lparr>last_motor_name := Some (case mn of None \<Rightarrow> DefaultMotor (self w) | Some m \<Rightarrow> m),
               motor_axis := Some a, motor_spu := spu, motor_offset := off,
               motor_sign := sg\<rparr>\<rparr>)"
  using assms by (simp add: configureMotor_def Let_def)

lemma configureMotor_trace: "trace (snd (configureMotor reg dev mn w)) = trace w"
  by (simp add: configureMotor_def Let_def split: option.split prod.split)

lemma configureMotor_frame:
  "time_mode (self (snd (configureMotor reg dev mn w))) = time_mode (self w) \<and>
   start_trigger_only (self (snd (configureMotor reg dev mn w))) = start_trigger_only (self w) \<and>
   use_master_out (self (snd (configureMotor reg dev mn w))) = use_master_out (self w) \<and>
   retries_nr (self (snd (configureMotor reg dev mn w))) = retries_nr (self w)"
  by (simp add: configureMotor_def Let_def split: option.split prod.split)





subsection \<open>C3: the number of retries\<close>

lemma init_resolved:
  assumes "retries_nr_of (Timeout p) = Inr n" and "ctrl_props reg (IcepapController p) = Some hp"
  shows "\<exists>c. init reg p = Inr c \<and> retries_nr c = n \<and> last_motor_name c = None \<and>
           use_master_out c = UseMasterOut p \<and> DefaultMotor c = DefaultMotor p"
  using assms by (simp add: init_def props.defs ctrl.defs)

text \<open>
  The rounding to the nearest double: its error is at most half a unit in the last
  place, that is, at most \<open>\<bar>x\<bar> / 2 ^ 53\<close>.
\<close>

lemma round_even_error: "\<bar>of_int (round_even y) - y\<bar> \<le> 1 / 2"
  unfolding round_even_def Let_def by (auto; linarith)

lemma fl_at:
  assumes "2 powr of_int e \<le> \<bar>x\<bar>" and "\<bar>x\<bar> < 2 powr (of_int e + 1)"
  shows "fl x = 2 powr (of_int e - 52) * of_int (round_even (x / 2 powr (of_int e - 52)))"
proof -
  have pos: "0 < \<bar>x\<bar>" using assms(1) by (smt (verit) powr_gt_zero)
  have "of_int e \<le> log 2 \<bar>x\<bar>" using assms(1) pos by (simp add: le_log_iff)
  moreover have "log 2 \<bar>x\<bar> < of_int e + 1" using assms(2) pos by (simp add: log_less_iff)
  ultimately have "\<lfloor>log 2 \<bar>x\<bar>\<rfloor> = e" by linarith
  moreover have "x \<noteq> 0" using pos by auto
  ultimately show ?thesis by (simp add: fl_def Let_def)
qed

lemma fl_zero: "fl 0 = 0"
  by (simp add: fl_def)

lemma fl_error:
  assumes "x \<noteq> 0"
  shows "\<bar>fl x - x\<bar> \<le> \<bar>x\<bar> / 2 ^ 53"
proof -
  define e where "e = \<lfloor>log 2 \<bar>x\<bar>\<rfloor>"
  define u :: real where "u = 2 powr (of_int e - 52)"
  have upos: "0 < u" by (simp add: u_def)
  have xpos: "0 < \<bar>x\<bar>" using assms by simp
  have "of_int e \<le> log 2 \<bar>x\<bar>" by (simp add: e_def)
  then have "2 powr of_int e \<le> \<bar>x\<bar>" using xpos by (simp add: le_log_iff)
  moreover have "(2::real) powr of_int e = u * 2 ^ 52"
  proof -
    have "u * 2 powr 52 = 2 powr (of_int e - 52 + 52)" unfolding u_def by (rule powr_add [symmetric])
    moreover have "(2::real) powr 52 = 2 ^ 52" by (simp add: powr_numeral)
    ultimately show ?thesis by simp
  qed
  ultimately have ux: "u * 2 ^ 52 \<le> \<bar>x\<bar>" by simp
  have f: "fl x = u * of_int (round_even (x / u))"
    using assms by (simp add: fl_def Let_def e_def u_def)
  have "fl x - x = u * (of_int (round_even (x / u)) - x / u)"
    unfolding f using upos by (simp add: algebra_simps)
  then have "\<bar>fl x - x\<bar> = u * \<bar>of_int (round_even (x / u)) - x / u\<bar>"
    using upos by (simp add: abs_mult)
  also have "\<dots> \<le> u * (1 / 2)"
    using round_even_error [of "x / u"] upos by (intro mult_left_mono) simp_all
  also have "\<dots> = (u * 2 ^ 52) / 2 ^ 53" by simp
  also have "\<dots> \<le> \<bar>x\<bar> / 2 ^ 53" using ux by (intro divide_right_mono) simp_all
  finally show ?thesis .
qed

text \<open>
  The floor division of 3 by a double \<open>w\<close> that is not below 0.09 is the floor of the
  exact quotient: the quotient is below 34, the two roundings move it by less than a
  quarter, and the snap to the nearest whole number undoes them.
\<close>

lemma float_floor_div_three:
  assumes w: "9 / 100 \<le> w"
  shows "float_floor_div 3 w = Inr (of_int \<lfloor>3 / w\<rfloor>)"
proof -
  define k where "k = \<lfloor>3 / w\<rfloor>"
  define eps :: real where "eps = 1 / 2 ^ 53"
  have wpos: "0 < w" using w by simp
  have q: "0 \<le> 3 / w" using wpos by simp
  have k0: "0 \<le> k" unfolding k_def using q by simp
  have "3 / w \<le> 3 / (9 / 100)" using w by (intro divide_left_mono) simp_all
  then have "3 / w < 34" by simp
  then have k34: "k < 34" unfolding k_def by linarith
  have kle: "of_int k \<le> 3 / w" and klt: "3 / w < of_int k + 1" unfolding k_def by linarith+
  have md: "fmod 3 w = 3 - w * of_int k" using q by (simp add: fmod_def trunc_def k_def)
  have "w * of_int k \<le> 3" using kle wpos by (simp add: field_simps)
  then have md0: "0 \<le> fmod 3 w" unfolding md by simp
  have noadj: "\<not> (fmod 3 w \<noteq> 0 \<and> ((w < 0) \<noteq> (fmod 3 w < 0)))" using wpos md0 by simp
  have p: "3 - fmod 3 w = w * of_int k" unfolding md by simp
  define dv where "dv = fl (fl (w * of_int k) / w)"
  have res: "float_floor_div 3 w =
      Inr (if dv \<noteq> 0 then (if 1 / 2 < dv - of_int \<lfloor>dv\<rfloor> then of_int \<lfloor>dv\<rfloor> + 1 else of_int \<lfloor>dv\<rfloor>)
           else 0)"
  proof -
    have wne: "(w = 0) = False" using wpos by simp
    show ?thesis
      unfolding float_floor_div_def Let_def if_not_P [OF noadj] p dv_def [symmetric] wne
      by (simp only: if_False)
  qed
  show ?thesis
  proof (cases "k = 0")
    case True
    then have "dv = 0" by (simp add: dv_def fl_zero)
    with res True show ?thesis by (simp add: k_def)
  next
    case False
    with k0 have k1: "1 \<le> k" by simp
    have rk: "1 \<le> (of_int k :: real)" "(of_int k :: real) < 34" using k1 k34 by simp_all
    have ppos: "0 < w * of_int k" using wpos rk by simp
    define t1 where "t1 = fl (w * of_int k)"
    have "\<bar>t1 - w * of_int k\<bar> \<le> \<bar>w * of_int k\<bar> / 2 ^ 53"
    proof -
      have "w * of_int k \<noteq> 0" using ppos by linarith
      then show ?thesis unfolding t1_def by (rule fl_error)
    qed
    then have e1: "\<bar>t1 - w * of_int k\<bar> \<le> w * of_int k * eps"
      using ppos by (simp add: eps_def)
    have "t1 / w - of_int k = (t1 - w * of_int k) / w" using wpos by (simp add: field_simps)
    then have "\<bar>t1 / w - of_int k\<bar> = \<bar>t1 - w * of_int k\<bar> / w" using wpos by (simp add: abs_divide)
    also have "\<dots> \<le> (w * of_int k * eps) / w" using e1 wpos by (intro divide_right_mono) simp_all
    also have "\<dots> = of_int k * eps" using wpos by simp
    finally have e2: "\<bar>t1 / w - of_int k\<bar> \<le> of_int k * eps" .
    have epsb: "0 < eps" "eps < 1 / 1000000" by (simp_all add: eps_def)
    have "of_int k * eps < 34 * (1 / 1000000)"
      using rk epsb by (intro mult_strict_mono) simp_all
    then have ke: "of_int k * eps < 1 / 10000" by simp
    have qpos: "0 < t1 / w" using e2 ke rk by linarith
    then have qne: "t1 / w \<noteq> 0" by linarith
    have qle: "t1 / w < 35" using e2 ke rk by linarith
    have "\<bar>dv - t1 / w\<bar> \<le> \<bar>t1 / w\<bar> / 2 ^ 53"
      unfolding dv_def t1_def [symmetric] by (rule fl_error [OF qne])
    then have "\<bar>dv - t1 / w\<bar> \<le> (t1 / w) * eps" using qpos by (simp add: eps_def)
    also have "\<dots> \<le> 35 * eps" using qle epsb by (intro mult_right_mono) simp_all
    also have "\<dots> < 1 / 10000" using epsb by simp
    finally have e3: "\<bar>dv - t1 / w\<bar> < 1 / 10000" .
    have near: "\<bar>dv - of_int k\<bar> < 1 / 4" using e2 e3 ke by linarith
    have dvne: "dv \<noteq> 0" using near rk by linarith
    have fl_cases: "\<lfloor>dv\<rfloor> = k \<or> \<lfloor>dv\<rfloor> = k - 1" using near by linarith
    have "(if 1 / 2 < dv - of_int \<lfloor>dv\<rfloor> then of_int \<lfloor>dv\<rfloor> + 1 else of_int \<lfloor>dv\<rfloor>) = (of_int k :: real)"
    proof (cases "\<lfloor>dv\<rfloor> = k")
      case True
      have "of_int \<lfloor>dv\<rfloor> \<le> dv" by simp
      with True near have "dv - of_int \<lfloor>dv\<rfloor> < 1 / 4" by linarith
      with True show ?thesis by simp
    next
      case False
      with fl_cases have f: "\<lfloor>dv\<rfloor> = k - 1" by simp
      have "dv - of_int \<lfloor>dv\<rfloor> = dv - of_int k + 1" unfolding f by simp
      with near have "1 / 2 < dv - of_int \<lfloor>dv\<rfloor>" by linarith
      then show ?thesis unfolding f by simp
    qed
    with res dvne show ?thesis by (simp add: k_def)
  qed
qed

lemma retries_nr_of_nonneg:
  assumes "0 \<le> timeout"
  shows "retries_nr_of timeout = Inr (max 1 \<lfloor>3 / fl (timeout + d01)\<rfloor>)"
proof -
  define x where "x = timeout + d01"
  have d: "1 / 10 \<le> d01" by (simp add: d01_def)
  have x: "1 / 10 \<le> x" using assms d by (simp add: x_def)
  then have xne: "x \<noteq> 0" by simp
  have "\<bar>fl x - x\<bar> \<le> \<bar>x\<bar> / 2 ^ 53" by (rule fl_error [OF xne])
  then have "\<bar>fl x - x\<bar> \<le> x / 10" using x by simp
  then have w: "9 / 100 \<le> fl x" using x by linarith
  define k where "k = \<lfloor>3 / fl x\<rfloor>"
  have k0: "0 \<le> k" unfolding k_def using w by simp
  have "trunc (if (of_int k :: real) = 0 then 1 else of_int k) = max 1 k"
  proof (cases "k = 0")
    case True
    then show ?thesis by (simp add: trunc_def)
  next
    case False
    with k0 have "1 \<le> k" by simp
    then show ?thesis using False by (simp add: trunc_def max_def)
  qed
  then show ?thesis
    unfolding retries_nr_of_def x_def [symmetric] float_floor_div_three [OF w] k_def [symmetric]
    by simp
qed

text \<open>
  The sums \<^verbatim>\<open>Timeout + 0.1\<close> in doubles for the timeouts 0.5, 3.0, 0.0 and -1.0, and the
  numbers of retries there.
\<close>

lemma fl_eval:
  assumes "2 powr of_int e \<le> \<bar>x\<bar>" and "\<bar>x\<bar> < 2 powr (of_int e + 1)"
    and "2 powr (of_int e - 52) = u" and "round_even (x / u) = m"
  shows "fl x = u * of_int m"
  using fl_at [OF assms(1,2)] assms(3,4) by simp

lemma fl_half: "fl (1 / 2 + d01) = 5404319552844595 / 2 ^ 53"
proof -
  have "fl (1 / 2 + d01) = (1 / 2 ^ 53) * of_int 5404319552844595"
    by (rule fl_eval [where e = "- 1"])
      (simp_all add: d01_def powr_minus powr_numeral round_even_def Let_def field_simps)
  then show ?thesis by simp
qed

lemma fl_three: "fl (3 + d01) = 6980579422424269 / 2 ^ 51"
proof -
  have "fl (3 + d01) = (1 / 2 ^ 51) * of_int 6980579422424269"
    by (rule fl_eval [where e = 1])
      (simp_all add: d01_def powr_minus powr_numeral round_even_def Let_def field_simps)
  then show ?thesis by simp
qed

lemma fl_zero_plus: "fl (0 + d01) = d01"
proof -
  have "fl (0 + d01) = (1 / 2 ^ 56) * of_int 7205759403792794"
    by (rule fl_eval [where e = "- 4"])
      (simp_all add: d01_def powr_minus powr_numeral round_even_def Let_def field_simps)
  then show ?thesis by (simp add: d01_def)
qed

lemma fl_minus_one: "fl (- 1 + d01) = - (8106479329266893 / 2 ^ 53)"
proof -
  have "fl (- 1 + d01) = (1 / 2 ^ 53) * of_int (- 8106479329266893)"
    by (rule fl_eval [where e = "- 1"])
      (simp_all add: d01_def powr_minus powr_numeral round_even_def Let_def field_simps)
  then show ?thesis by simp
qed

lemma retries_half: "retries_nr_of (1 / 2) = Inr 5"
  using retries_nr_of_nonneg [of "1 / 2"] by (simp add: fl_half)

lemma retries_three: "retries_nr_of 3 = Inr 1"
  using retries_nr_of_nonneg [of 3] by (simp add: fl_three)

lemma retries_zero: "retries_nr_of 0 = Inr 29"
proof -
  have "\<lfloor>3 / d01\<rfloor> = 29" by (simp add: d01_def)
  then show ?thesis using retries_nr_of_nonneg [of 0] unfolding fl_zero_plus by simp
qed

lemma fl_27: "fl (24319437987800679 / 2 ^ 53) = 6079859496950170 / 2 ^ 51"
proof -
  have "fl (24319437987800679 / 2 ^ 53) = (1 / 2 ^ 51) * of_int 6079859496950170"
    by (rule fl_eval [where e = 1])
      (simp_all add: powr_minus powr_numeral round_even_def Let_def field_simps)
  then show ?thesis by simp
qed

lemma fl_m3: "fl (- (24319437987800680 / 8106479329266893)) = - 3"
proof -
  have "fl (- (24319437987800680 / 8106479329266893)) = (1 / 2 ^ 51) * of_int (- 6755399441055744)"
    by (rule fl_eval [where e = 1])
      (simp_all add: powr_minus powr_numeral round_even_def Let_def field_simps)
  then show ?thesis by simp
qed

lemma fl_m4: "fl (- 4) = - 4"
proof -
  have "fl (- 4) = (1 / 2 ^ 50) * of_int (- 4503599627370496)"
    by (rule fl_eval [where e = 2])
      (simp_all add: powr_minus powr_numeral round_even_def Let_def field_simps)
  then show ?thesis by simp
qed

lemma retries_minus_one: "retries_nr_of (- 1) = Inr (- 4)"
proof -
  let ?w = "- (8106479329266893 / 2 ^ 53) :: real"
  have md: "fmod 3 ?w = 2702159776422297 / 2 ^ 53"
    by (simp add: fmod_def trunc_def)
  have sub: "3 - (2702159776422297 / 2 ^ 53 :: real) = 24319437987800679 / 2 ^ 53" by simp
  have quo: "(6079859496950170 / 2 ^ 51) / ?w = - (24319437987800680 / 8106479329266893)" by simp
  have "float_floor_div 3 ?w = Inr (- 4)"
    unfolding float_floor_div_def Let_def md sub fl_27 quo fl_m3
    by (simp add: fl_m4)
  then show ?thesis unfolding retries_nr_of_def fl_minus_one by (simp add: trunc_def)
qed

text \<open>
  Claim C3, as amended. For every configured timeout that is not negative, the number
  of retries that the construction computes is \<open>max 1 \<lfloor>3 / w\<rfloor>\<close>, where \<open>w\<close> is the sum
  \<^verbatim>\<open>Timeout + 0.1\<close> as the code computes it, in doubles: the double nearest to the sum of
  the timeout and of the double that \<^verbatim>\<open>0.1\<close> denotes. The quotient and the floor are
  exact. It is 5 for the timeout 0.5 and 1 for the timeout 3.0; for the timeout 0.0 it
  is 29, since the double of \<^verbatim>\<open>0.1\<close> is above one tenth.
\<close>

theorem retries_nr_formula:
  assumes "0 \<le> Timeout p" and "ctrl_props reg (IcepapController p) = Some hp"
  shows "(\<exists>c. init reg p = Inr c \<and>
               retries_nr c = max 1 \<lfloor>3 / fl (Timeout p + d01)\<rfloor>) \<and>
         retries_nr_of (1 / 2) = Inr 5 \<and> retries_nr_of 3 = Inr 1 \<and> retries_nr_of 0 = Inr 29"
proof -
  from retries_nr_of_nonneg [OF assms(1)] init_resolved [OF _ assms(2)]
  have "\<exists>c. init reg p = Inr c \<and> retries_nr c = max 1 \<lfloor>3 / fl (Timeout p + d01)\<rfloor>"
    by blast
  with retries_half retries_three retries_zero show ?thesis by blast
qed

text \<open>
  The theorem at the default timeout, 0.5: the controller retries 5 times.
\<close>

theorem retries_nr_formula_witness:
  "0 \<le> Timeout props_master \<and>
   ctrl_props reg_m (IcepapController props_master) = Some (''icepap01'', 5000) \<and>
   init reg_m props_master = Inr ctrl_master \<and>
   retries_nr ctrl_master = 5 \<and>
   max 1 \<lfloor>3 / fl (Timeout props_master + d01)\<rfloor> = 5"
proof -
  have t: "0 \<le> Timeout props_master" by (simp add: props_master_def)
  have r: "ctrl_props reg_m (IcepapController props_master) = Some (''icepap01'', 5000)"
    by (simp add: reg_m_def props_master_def)
  have h: "retries_nr_of (Timeout props_master) = Inr 5"
    using retries_half by (simp add: props_master_def)
  have i: "init reg_m props_master = Inr ctrl_master"
    unfolding init_def h
    by (simp add: reg_m_def props_master_def ctrl_master_def props.defs ctrl.defs strip_def
        isspace_def)
  from retries_nr_formula [OF t r] i
  have "retries_nr ctrl_master = max 1 \<lfloor>3 / fl (Timeout props_master + d01)\<rfloor>" by auto
  moreover have "retries_nr ctrl_master = 5" by (simp add: ctrl_master_def)
  ultimately show ?thesis using t r i by simp
qed

text \<open>
  The claim as stated, for every timeout, fails at the timeout -1: the floor division
  gives -4, which is not 0 and is kept, where the formula gives 1, with the sum in
  doubles as with the exact sum.
\<close>

theorem retries_nr_negative_timeout:
  "Timeout props_negative = - 1 \<and>
   init reg_m props_negative = Inr (ctrl_master\<lparr>Timeout := - 1, retries_nr := - 4\<rparr>) \<and>
   max 1 \<lfloor>3 / (Timeout props_negative + 1 / 10)\<rfloor> = 1 \<and>
   max 1 \<lfloor>3 / fl (Timeout props_negative + d01)\<rfloor> = 1"
proof -
  have t: "Timeout props_negative = - 1" by (simp add: props_negative_def)
  have h: "retries_nr_of (Timeout props_negative) = Inr (- 4)"
    unfolding t by (rule retries_minus_one)
  have i: "init reg_m props_negative = Inr (ctrl_master\<lparr>Timeout := - 1, retries_nr := - 4\<rparr>)"
    unfolding init_def h
    by (simp add: reg_m_def props_negative_def props_master_def ctrl_master_def props.defs
        ctrl.defs strip_def isspace_def)
  have f: "max 1 \<lfloor>3 / (Timeout props_negative + 1 / 10)\<rfloor> = 1" unfolding t by simp
  have g: "max 1 \<lfloor>3 / fl (Timeout props_negative + d01)\<rfloor> = 1"
    unfolding t fl_minus_one by simp
  from t i f g show ?thesis by simp
qed

subsection \<open>C1: the multiplexer at the first configuration\<close>

text \<open>
  Claim C1 says that the first of two calls of \<^verbatim>\<open>_configureMotor\<close> with the same motor,
  in master-output mode, reassigns the multiplexer once, and that the second does not.
  On a controller that has bound no motor yet, the first call with \<open>m1\<close> stores the
  name, the axis and the calibration, and makes no call on the device at all: the name
  compared at line 158 is the one that line 151 has just stored. The second call does the
  same, and so does a call with another motor, \<open>m2\<close>, on the controller bound to \<open>m1\<close>.
\<close>

theorem configureMotor_first_call:
  "use_master_out (self w_master) \<and> last_motor_name (self w_master) = None \<and>
   configureMotor reg_m dev_ok (Some ''m1'') w_master = (Inr (), w_m1) \<and>
   configureMotor reg_m dev_ok (Some ''m1'') w_m1 = (Inr (), w_m1) \<and>
   filter is_pmux_write (trace w_m1) = filter is_pmux_write (trace w_master) \<and>
   fst (configureMotor reg_m dev_ok (Some ''m2'') w_m1) = Inr () \<and>
   motor_axis (self (snd (configureMotor reg_m dev_ok (Some ''m2'') w_m1))) = Some 2 \<and>
   trace (snd (configureMotor reg_m dev_ok (Some ''m2'') w_m1)) = []"
  by (simp add: configureMotor_def Let_def reg_m_def w_master_def w_m1_def ctrl_m1_def
      ctrl_master_def)

subsection \<open>C7: the state of the trigger\<close>

lemma StateOne_self: "self (snd (StateOne dev axis w)) = self w"
proof -
  obtain hw w' where r: "read_state dev (nat (retries_nr (self w))) w = (hw, w')"
    by (cases "read_state dev (nat (retries_nr (self w))) w")
  have "self (snd (read_state dev (nat (retries_nr (self w))) w)) = self w"
    by (rule read_state_self)
  with r have "self w' = self w" by simp
  with r show ?thesis by (cases hw) (simp_all add: StateOne_def)
qed

lemma StateOne_trace:
  "\<exists>k. trace (snd (StateOne dev axis w)) = trace w @ replicate k (GetState (motor_axis (self w)))"
proof -
  obtain hw w' where r: "read_state dev (nat (retries_nr (self w))) w = (hw, w')"
    by (cases "read_state dev (nat (retries_nr (self w))) w")
  from read_state_trace [of dev "nat (retries_nr (self w))" w] r obtain k where
    "trace w' = trace w @ replicate k (GetState (motor_axis (self w)))" by auto
  moreover from r have "snd (StateOne dev axis w) = w'"
    by (cases hw) (simp_all add: StateOne_def)
  ultimately show ?thesis by auto
qed

text \<open>
  Claim C7. \<^verbatim>\<open>StateOne\<close> never raises: for every device it returns one of Alarm, Moving
  and On. When each of the reads that it tries raises, it returns Alarm. When the read
  number \<open>k\<close> is the first that succeeds, it returns Alarm if the motor reports that it is
  not powered, else Moving if the motor reports that it is moving or settling, else On.
\<close>

theorem StateOne_never_raises:
  fixes dev :: icepap and axis :: int and w :: world and k :: nat
  defines "e \<equiv> GetState (motor_axis (self w))"
  defines "n \<equiv> nat (retries_nr (self w))"
  defines "h \<equiv> state_reply dev (trace w @ replicate k e)"
  defines "first_ok \<equiv> k < n \<and> (\<forall>j<k. raises dev (trace w @ replicate j e) e) \<and>
                        \<not> raises dev (trace w @ replicate k e) e"
  shows "(\<exists>st msg w'. StateOne dev axis w = (Inr (st, msg), w') \<and>
            (st = Alarm \<or> st = Moving \<or> st = On)) \<and>
         ((\<forall>j<n. raises dev (trace w @ replicate j e) e) \<longrightarrow>
            (\<exists>msg. fst (StateOne dev axis w) = Inr (Alarm, msg))) \<and>
         (first_ok \<and> \<not> is_poweron h \<longrightarrow>
            (\<exists>msg. fst (StateOne dev axis w) = Inr (Alarm, msg))) \<and>
         (first_ok \<and> is_poweron h \<and> (is_moving h \<or> is_settling h) \<longrightarrow>
            (\<exists>msg. fst (StateOne dev axis w) = Inr (Moving, msg))) \<and>
         (first_ok \<and> is_poweron h \<and> \<not> is_moving h \<and> \<not> is_settling h \<longrightarrow>
            (\<exists>msg. fst (StateOne dev axis w) = Inr (On, msg)))"
proof -
  have total: "\<exists>st msg w'. StateOne dev axis w = (Inr (st, msg), w') \<and>
                 (st = Alarm \<or> st = Moving \<or> st = On)"
  proof -
    obtain hw w' where r: "read_state dev n w = (hw, w')" by (cases "read_state dev n w")
    show ?thesis
    proof (cases hw)
      case None
      with r show ?thesis by (simp add: StateOne_def n_def)
    next
      case (Some s)
      with r show ?thesis by (simp add: StateOne_def n_def)
    qed
  qed
  have fail: "\<exists>msg. fst (StateOne dev axis w) = Inr (Alarm, msg)"
    if "\<forall>j<n. raises dev (trace w @ replicate j e) e"
    using read_state_all_fail [of n dev w] that by (simp add: StateOne_def n_def e_def)
  have ok: "fst (StateOne dev axis w) =
              Inr (if \<not> is_poweron h
                   then (Alarm, ''The motor is power off or not possible to read State'')
                   else if is_moving h \<or> is_settling h then (Moving, ''Moving'')
                   else (On, ''Motor is not generating triggers.''))"
    if first_ok
  proof -
    from that have "read_state dev n w =
        (Some h, w\<lparr>trace := trace w @ replicate (Suc k) e\<rparr>)"
      unfolding first_ok_def h_def e_def by (intro read_state_first_ok) simp_all
    then show ?thesis by (simp add: StateOne_def n_def)
  qed
  show ?thesis using total fail ok by simp
qed

text \<open>
  The theorem at three devices: one that never answers, one that reports a moving
  motor, one that reports a motor at rest.
\<close>

theorem StateOne_never_raises_witness:
  "fst (StateOne dev_down 1 w_m1) =
     Inr (Alarm, ''The motor is power off or not possible to read State'') \<and>
   fst (StateOne dev_moving 1 w_m1) = Inr (Moving, ''Moving'') \<and>
   fst (StateOne dev_ok 1 w_m1) = Inr (On, ''Motor is not generating triggers.'')"
proof -
  have n: "nat (retries_nr (self w_m1)) = 5"
    by (simp add: w_m1_def ctrl_m1_def ctrl_master_def)
  have down: "\<forall>j<nat (retries_nr (self w_m1)).
      raises dev_down (trace w_m1 @ replicate j (GetState (motor_axis (self w_m1))))
        (GetState (motor_axis (self w_m1)))"
    by (simp add: dev_down_def)
  from StateOne_never_raises [of dev_down 1 w_m1 0] down
  obtain msg where a: "fst (StateOne dev_down 1 w_m1) = Inr (Alarm, msg)" by blast
  have a': "fst (StateOne dev_down 1 w_m1) =
     Inr (Alarm, ''The motor is power off or not possible to read State'')"
    using n by (simp add: StateOne_def dev_down_def call_def eval_nat_numeral)
  have "\<exists>msg. fst (StateOne dev_moving 1 w_m1) = Inr (Moving, msg)"
    using StateOne_never_raises [of dev_moving 1 w_m1 0] n by (simp add: dev_moving_def)
  then have m: "fst (StateOne dev_moving 1 w_m1) = Inr (Moving, ''Moving'')"
    using n by (auto simp: StateOne_def dev_moving_def call_def eval_nat_numeral)
  have "\<exists>msg. fst (StateOne dev_ok 1 w_m1) = Inr (On, msg)"
    using StateOne_never_raises [of dev_ok 1 w_m1 0] n by (simp add: dev_ok_def)
  then have r: "fst (StateOne dev_ok 1 w_m1) = Inr (On, ''Motor is not generating triggers.'')"
    using n by (auto simp: StateOne_def dev_ok_def call_def eval_nat_numeral)
  from a a' m r show ?thesis by simp
qed

subsection \<open>C8: the start\<close>

lemma calls_ok_append:
  "calls_ok dev tr (xs @ ys) = (calls_ok dev tr xs \<and> calls_ok dev (tr @ xs) ys)"
  by (induction dev tr xs rule: calls_ok.induct) simp_all

lemma set_infos_calls:
  "calls_ok dev (trace w) (map (\<lambda>i. SetAttr (motor_axis (self w)) i v) infos) \<Longrightarrow>
   set_infos dev infos v w =
     (Inr (), w\<lparr>trace := trace w @ map (\<lambda>i. SetAttr (motor_axis (self w)) i v) infos\<rparr>)"
proof (induction infos arbitrary: w)
  case Nil
  show ?case by simp
next
  case (Cons i rest)
  let ?e = "SetAttr (motor_axis (self w)) i v"
  let ?w' = "w\<lparr>trace := trace w @ [?e]\<rparr>"
  from Cons.prems have ok: "\<not> raises dev (trace w) ?e"
    and rest: "calls_ok dev (trace ?w') (map (\<lambda>i. SetAttr (motor_axis (self ?w')) i v) rest)"
    by simp_all
  from Cons.IH [OF rest] ok show ?case by (simp add: call_def)
qed

lemma set_out_calls_ok:
  assumes "calls_ok dev (trace w) (set_out_calls (self w) out)"
  shows "set_out dev out w = (Inr (), w\<lparr>trace := trace w @ set_out_calls (self w) out\<rparr>)"
proof (cases "use_master_out (self w)")
  case True
  with assms show ?thesis
    by (simp add: set_out_def set_out_calls_def call_def)
next
  case False
  let ?ws = "map (\<lambda>i. SetAttr (motor_axis (self w)) i [out, ''normal'']) (axis_info_list (self w))"
  from assms False have a: "calls_ok dev (trace w) ?ws"
    and b: "\<not> raises dev (trace w @ ?ws) (GetSyncaux (motor_axis (self w)))"
    by (simp_all add: set_out_calls_def calls_ok_append)
  from set_infos_calls [OF a] b False show ?thesis
    by (simp add: set_out_def set_out_calls_def call_def)
qed

text \<open>
  Claim C8. In position mode \<^verbatim>\<open>StartOne\<close> returns at once: it makes no call and changes
  nothing, on every device. In time mode, when the calls that it makes on the device
  succeed (the writes of the output and the reads of \<^verbatim>\<open>syncaux\<close>, each after the calls
  made before it), it writes the output high, sleeps 0.01 s and writes the output low;
  nothing is asked of calls that it does not make.
\<close>

theorem StartOne_pulse:
  "(\<not> time_mode (self w) \<longrightarrow> StartOne dev axis w = (Inr (), w)) \<and>
   (time_mode (self w) \<and>
    calls_ok dev (trace w)
      (set_out_calls (self w) HIGH @ [Sleep (1 / 100)] @ set_out_calls (self w) LOW) \<longrightarrow>
      StartOne dev axis w =
        (Inr (), w\<lparr>trace := trace w @ set_out_calls (self w) HIGH @ [Sleep (1 / 100)]
                                   @ set_out_calls (self w) LOW\<rparr>))"
proof (intro conjI impI)
  assume "\<not> time_mode (self w)"
  then show "StartOne dev axis w = (Inr (), w)" by (simp add: StartOne_def)
next
  assume a: "time_mode (self w) \<and>
    calls_ok dev (trace w)
      (set_out_calls (self w) HIGH @ [Sleep (1 / 100)] @ set_out_calls (self w) LOW)"
  let ?w1 = "w\<lparr>trace := trace w @ set_out_calls (self w) HIGH\<rparr>"
  let ?w2 = "?w1\<lparr>trace := trace ?w1 @ [Sleep (1 / 100)]\<rparr>"
  from a have hi: "calls_ok dev (trace w) (set_out_calls (self w) HIGH)"
    and lo: "calls_ok dev (trace ?w2) (set_out_calls (self ?w2) LOW)"
    by (simp_all add: calls_ok_append)
  have h: "set_out dev HIGH w = (Inr (), ?w1)" by (rule set_out_calls_ok [OF hi])
  have l: "set_out dev LOW ?w2 = (Inr (), ?w2\<lparr>trace := trace ?w2 @ set_out_calls (self ?w2) LOW\<rparr>)"
    by (rule set_out_calls_ok [OF lo])
  from a h l show "StartOne dev axis w =
        (Inr (), w\<lparr>trace := trace w @ set_out_calls (self w) HIGH @ [Sleep (1 / 100)]
                                   @ set_out_calls (self w) LOW\<rparr>)"
    by (simp add: StartOne_def)
qed

text \<open>
  The theorem at a controller in position mode on a device that never answers, and at
  one in time mode on a device whose multiplexer calls raise.
\<close>

theorem StartOne_pulse_witness:
  "\<not> time_mode (self w_m1) \<and> StartOne dev_down 1 w_m1 = (Inr (), w_m1) \<and>
   time_mode (self w_time) \<and> raises dev_pmux_down [] (ClearPmux ''e0'') \<and>
   StartOne dev_pmux_down 1 w_time =
     (Inr (), w_time\<lparr>trace := [SetAttr (Some 1) ''syncaux'' [''high'', ''normal''],
                                GetSyncaux (Some 1), Sleep (1 / 100),
                                SetAttr (Some 1) ''syncaux'' [''low'', ''normal''],
                                GetSyncaux (Some 1)]\<rparr>)"
proof -
  have p: "\<not> time_mode (self w_m1)"
    by (simp add: w_m1_def ctrl_m1_def ctrl_master_def)
  have c: "set_out_calls (self w_time) HIGH @ [Sleep (1 / 100)] @ set_out_calls (self w_time) LOW =
      [SetAttr (Some 1) ''syncaux'' [''high'', ''normal''], GetSyncaux (Some 1), Sleep (1 / 100),
       SetAttr (Some 1) ''syncaux'' [''low'', ''normal''], GetSyncaux (Some 1)]"
    by (simp add: set_out_calls_def w_time_def ctrl_m1_def ctrl_master_def HIGH_def LOW_def)
  have e: "trace w_time = []" by (simp add: w_time_def)
  have t: "time_mode (self w_time) \<and>
    calls_ok dev_pmux_down (trace w_time)
      (set_out_calls (self w_time) HIGH @ [Sleep (1 / 100)] @ set_out_calls (self w_time) LOW)"
    unfolding c e by (simp add: w_time_def dev_pmux_down_def)
  have r: "raises dev_pmux_down [] (ClearPmux ''e0'')" by (simp add: dev_pmux_down_def)
  from StartOne_pulse [of w_m1 dev_down 1] p
  have 1: "StartOne dev_down 1 w_m1 = (Inr (), w_m1)" by blast
  from StartOne_pulse [of w_time dev_pmux_down 1] t
  have "StartOne dev_pmux_down 1 w_time =
        (Inr (), w_time\<lparr>trace := trace w_time @ set_out_calls (self w_time) HIGH
                   @ [Sleep (1 / 100)] @ set_out_calls (self w_time) LOW\<rparr>)" by blast
  then have 2: "StartOne dev_pmux_down 1 w_time =
     (Inr (), w_time\<lparr>trace := [SetAttr (Some 1) ''syncaux'' [''high'', ''normal''],
                                GetSyncaux (Some 1), Sleep (1 / 100),
                                SetAttr (Some 1) ''syncaux'' [''low'', ''normal''],
                                GetSyncaux (Some 1)]\<rparr>)"
    unfolding c e by simp
  from p t r 1 2 show ?thesis by simp
qed

subsection \<open>C9: what the lifecycle leaves unchanged\<close>

lemma PreStartOne_snd:
  "snd (PreStartOne dev axis w) = snd (set_out dev (if time_mode (self w) then LOW else ECAM) w)"
proof -
  obtain r w' where s: "set_out dev (if time_mode (self w) then LOW else ECAM) w = (r, w')"
    by (cases "set_out dev (if time_mode (self w) then LOW else ECAM) w")
  then show ?thesis by (cases r) (auto simp: PreStartOne_def split: if_splits)
qed

lemma StartOne_self: "self (snd (StartOne dev axis w)) = self w"
proof (cases "time_mode (self w)")
  case False
  then show ?thesis by (simp add: StartOne_def)
next
  case True
  obtain r w1 where h: "set_out dev HIGH w = (r, w1)" by (cases "set_out dev HIGH w")
  have "self (snd (set_out dev HIGH w)) = self w" by (rule set_out_self)
  with h have w1: "self w1 = self w" by simp
  show ?thesis
  proof (cases r)
    case (Inl e)
    with True h w1 show ?thesis by (simp add: StartOne_def)
  next
    case (Inr u)
    let ?w2 = "w1\<lparr>trace := trace w1 @ [Sleep (1 / 100)]\<rparr>"
    have "self (snd (set_out dev LOW ?w2)) = self ?w2" by (rule set_out_self)
    with Inr True h w1 show ?thesis by (simp add: StartOne_def)
  qed
qed

lemma StartOne_trace:
  assumes regs: "set (''syncaux'' # axis_info_list (self w)) \<subseteq> set regs"
  shows "\<exists>es. trace (snd (StartOne dev axis w)) = trace w @ es \<and> list_all (output_call regs) es"
proof (cases "time_mode (self w)")
  case False
  then have "trace (snd (StartOne dev axis w)) = trace w @ []" by (simp add: StartOne_def)
  moreover have "list_all (output_call regs) []" by simp
  ultimately show ?thesis by blast
next
  case True
  obtain r w1 where h: "set_out dev HIGH w = (r, w1)" by (cases "set_out dev HIGH w")
  have "self (snd (set_out dev HIGH w)) = self w" by (rule set_out_self)
  with h have w1: "self w1 = self w" by simp
  from set_out_trace [OF regs, of dev HIGH] h obtain es where
    es: "trace w1 = trace w @ es" "list_all (output_call regs) es" by auto
  show ?thesis
  proof (cases r)
    case (Inl e)
    with True h es show ?thesis by (simp add: StartOne_def)
  next
    case (Inr u)
    let ?w2 = "w1\<lparr>trace := trace w1 @ [Sleep (1 / 100)]\<rparr>"
    have "set (''syncaux'' # axis_info_list (self ?w2)) \<subseteq> set regs" using regs w1 by simp
    from set_out_trace [OF this, of dev LOW] obtain es2 where
      es2: "trace (snd (set_out dev LOW ?w2)) = trace ?w2 @ es2" "list_all (output_call regs) es2"
      by blast
    have "trace (snd (StartOne dev axis w)) = trace w @ (es @ Sleep (1 / 100) # es2)"
      using Inr True h es(1) es2(1) by (simp add: StartOne_def)
    moreover have "list_all (output_call regs) (es @ Sleep (1 / 100) # es2)"
      using es(2) es2(2) by simp
    ultimately show ?thesis by blast
  qed
qed

lemma StateOne_output:
  "\<exists>es. trace (snd (StateOne dev axis w)) = trace w @ es \<and> list_all (output_call regs) es"
proof -
  from StateOne_trace [of dev axis w] obtain k where
    "trace (snd (StateOne dev axis w)) = trace w @ replicate k (GetState (motor_axis (self w)))"
    by blast
  moreover have "list_all (output_call regs) (replicate k (GetState (motor_axis (self w))))"
    by (induction k) simp_all
  ultimately show ?thesis by blast
qed

text \<open>
  Claim C9. \<^verbatim>\<open>StateOne\<close>, \<^verbatim>\<open>PreStartOne\<close>, \<^verbatim>\<open>StartOne\<close> and \<^verbatim>\<open>AbortOne\<close> leave every attribute
  of the controller as it was (the time mode, the flag of the single start trigger, the
  name, the axis and the calibration of the motor among them), for every device, also
  when they raise. On the device, they only add calls to the trace, and each call is a
  write of an output register (\<open>syncaux\<close> or one of the auxiliary outputs), a read, or
  the pause: never a change of the multiplexer or an upload of a table.
\<close>

theorem lifecycle_frame:
  fixes dev :: icepap and axis :: int and w :: world
  defines "regs \<equiv> ''syncaux'' # axis_info_list (self w)"
  shows "self (snd (StateOne dev axis w)) = self w \<and>
         self (snd (PreStartOne dev axis w)) = self w \<and>
         self (snd (StartOne dev axis w)) = self w \<and>
         self (snd (AbortOne dev axis w)) = self w \<and>
         (\<exists>es. trace (snd (StateOne dev axis w)) = trace w @ es \<and> list_all (output_call regs) es) \<and>
         (\<exists>es. trace (snd (PreStartOne dev axis w)) = trace w @ es \<and> list_all (output_call regs) es) \<and>
         (\<exists>es. trace (snd (StartOne dev axis w)) = trace w @ es \<and> list_all (output_call regs) es) \<and>
         (\<exists>es. trace (snd (AbortOne dev axis w)) = trace w @ es \<and> list_all (output_call regs) es)"
proof -
  have r: "set (''syncaux'' # axis_info_list (self w)) \<subseteq> set regs" by (simp add: regs_def)
  have 1: "self (snd (StateOne dev axis w)) = self w" by (rule StateOne_self)
  have 2: "self (snd (PreStartOne dev axis w)) = self w"
    unfolding PreStartOne_snd by (rule set_out_self)
  have 3: "self (snd (StartOne dev axis w)) = self w" by (rule StartOne_self)
  have 4: "self (snd (AbortOne dev axis w)) = self w"
    unfolding AbortOne_def by (rule set_out_self)
  have 5: "\<exists>es. trace (snd (StateOne dev axis w)) = trace w @ es \<and> list_all (output_call regs) es"
    by (rule StateOne_output)
  have 6: "\<exists>es. trace (snd (PreStartOne dev axis w)) = trace w @ es \<and> list_all (output_call regs) es"
    unfolding PreStartOne_snd by (rule set_out_trace [OF r])
  have 7: "\<exists>es. trace (snd (StartOne dev axis w)) = trace w @ es \<and> list_all (output_call regs) es"
    by (rule StartOne_trace [OF r])
  have 8: "\<exists>es. trace (snd (AbortOne dev axis w)) = trace w @ es \<and> list_all (output_call regs) es"
    unfolding AbortOne_def by (rule set_out_trace [OF r])
  from 1 2 3 4 5 6 7 8 show ?thesis by blast
qed

text \<open>
  The theorem at a controller in time mode, on a device that answers and on one that
  does not.
\<close>

theorem lifecycle_frame_witness:
  "self (snd (StateOne dev_down 1 w_time)) = self w_time \<and>
   self (snd (PreStartOne dev_ok 1 w_time)) = self w_time \<and>
   self (snd (StartOne dev_ok 1 w_time)) = self w_time \<and>
   self (snd (AbortOne dev_down 1 w_time)) = self w_time \<and>
   trace (snd (PreStartOne dev_ok 1 w_time)) =
     [SetAttr (Some 1) ''syncaux'' [''low'', ''normal''], GetSyncaux (Some 1)] \<and>
   trace (snd (AbortOne dev_down 1 w_time)) =
     [SetAttr (Some 1) ''syncaux'' [''low'', ''normal'']]"
proof -
  have p: "trace (snd (PreStartOne dev_ok 1 w_time)) =
     [SetAttr (Some 1) ''syncaux'' [''low'', ''normal''], GetSyncaux (Some 1)]"
    by (simp add: PreStartOne_def set_out_def call_def dev_ok_def w_time_def ctrl_m1_def
        ctrl_master_def LOW_def)
  have a: "trace (snd (AbortOne dev_down 1 w_time)) =
     [SetAttr (Some 1) ''syncaux'' [''low'', ''normal'']]"
    by (simp add: AbortOne_def set_out_def call_def dev_down_def w_time_def ctrl_m1_def
        ctrl_master_def LOW_def)
  from lifecycle_frame [of dev_down 1 w_time] lifecycle_frame [of dev_ok 1 w_time] p a
  show ?thesis by blast
qed

subsection \<open>The table of a request by position\<close>


text \<open>
  The concrete requests: five points from 0 with a total of 10 per point, and three
  points backwards.
\<close>

lemmas concrete_defs =
  reg_m_def dev_ok_def w_m1_def w_master_def w_aux_def w_aux_m2_def w_time_def
  w_start_only_def ctrl_m1_def ctrl_aux_def ctrl_master_def req_pos_def req_time_def


lemma w_m1_resolved:
  "use_master_out (self w_m1) \<or> last_motor_name (self w_m1) = Some (DefaultMotor (self w_m1))"
  "axis_prop reg_m (case last_motor_name (self w_m1) of None \<Rightarrow> DefaultMotor (self w_m1)
                    | Some x \<Rightarrow> x) = Some 1"
  "calib reg_m (case last_motor_name (self w_m1) of None \<Rightarrow> DefaultMotor (self w_m1)
                | Some x \<Rightarrow> x) = Some (1000, 0, 1)"
  "\<not> start_trigger_only (self w_m1)"
  by (simp_all add: concrete_defs)



subsection \<open>C2: more points than the table holds\<close>








subsection \<open>C4: the entries of the table\<close>



subsection \<open>C5: the order of the table\<close>




subsection \<open>C6: a request by time\<close>

lemma SynchOne_table_by_time:
  assumes conf: "configuration = g # others" and ini: "Initial g = None"
  shows "SynchOne_table reg dev axis configuration w =
     (if 1 < Repeats g then (Inl (ValueError msg_by_time), w)
      else if \<not> use_master_out (self w) \<and> last_motor_name (self w) \<noteq> Some (DefaultMotor (self w))
      then (Inl (RuntimeError msg_cable), w\<lparr>self := (self w)\<lparr>time_mode := True\<rparr>\<rparr>)
      else (case configureMotor reg dev (last_motor_name (self w))
                   (w\<lparr>self := (self w)\<lparr>time_mode := True\<rparr>\<rparr>) of
              (Inl e, w2) \<Rightarrow> (Inl e, w2)
            | (Inr u, w2) \<Rightarrow> (Inr None, w2)))"
  unfolding SynchOne_table_def conf list.case Let_def ini option.case by simp

text \<open>
  Claim C6, as amended. For every request whose first group has no initial position:
  with more than one point, \<^verbatim>\<open>SynchOne\<close> fails with the error of the multiple triggers
  by time and the world is unchanged; with one point at most, it sets the time mode,
  builds no table and uploads none, and then either fails with the error of the cable,
  with nothing else changed (auxiliary outputs, and the last motor name is not the
  default motor), or configures the last motor (the default motor when there is none)
  and returns, when the registry resolves it.
\<close>

theorem SynchOne_by_time:
  fixes w :: world and g :: synch_group and a :: int and spu off sg :: real
  defines "m \<equiv> (case last_motor_name (self w) of None \<Rightarrow> DefaultMotor (self w) | Some x \<Rightarrow> x)"
  defines "mismatch \<equiv> \<not> use_master_out (self w) \<and>
                         last_motor_name (self w) \<noteq> Some (DefaultMotor (self w))"
  assumes conf: "configuration = g # others" and ini: "Initial g = None"
  shows "(1 < Repeats g \<longrightarrow>
            SynchOne reg dev axis configuration w = (Inl ConfigurationError_by_time, w)) \<and>
         (Repeats g \<le> 1 \<longrightarrow>
            time_mode (self (snd (SynchOne reg dev axis configuration w))) \<and>
            (\<forall>tbl. fst (SynchOne_table reg dev axis configuration w) \<noteq> Inr (Some tbl)) \<and>
            filter is_upload (trace (snd (SynchOne reg dev axis configuration w))) =
              filter is_upload (trace w) \<and>
            (mismatch \<longrightarrow>
               SynchOne reg dev axis configuration w =
                 (Inl ConfigurationError_cable, w\<lparr>self := (self w)\<lparr>time_mode := True\<rparr>\<rparr>)) \<and>
            (\<not> mismatch \<and> axis_prop reg m = Some a \<and> calib reg m = Some (spu, off, sg) \<longrightarrow>
               SynchOne reg dev axis configuration w =
                 (Inr (), w\<lparr>self := (self w)\<lparr>time_mode := True, last_motor_name := Some m,
                     motor_axis := Some a, motor_spu := spu, motor_offset := off,
                     motor_sign := sg\<rparr>\<rparr>)))"
proof -
  let ?w1 = "w\<lparr>self := (self w)\<lparr>time_mode := True\<rparr>\<rparr>"
  let ?S = "SynchOne reg dev axis configuration w"
  note t = SynchOne_table_by_time [OF conf ini, of reg dev axis w]
  have many: "?S = (Inl ConfigurationError_by_time, w)" if "1 < Repeats g"
    using t that by (simp add: SynchOne_def ConfigurationError_by_time_def)
  have mis: "?S = (Inl ConfigurationError_cable, ?w1)" if "Repeats g \<le> 1" mismatch
    using t that by (simp add: SynchOne_def ConfigurationError_cable_def mismatch_def)
  obtain r w2 where c: "configureMotor reg dev (last_motor_name (self w)) ?w1 = (r, w2)"
    by (cases "configureMotor reg dev (last_motor_name (self w)) ?w1")
  have "trace (snd (configureMotor reg dev (last_motor_name (self w)) ?w1)) = trace ?w1"
    by (rule configureMotor_trace)
  with c have w2t: "trace w2 = trace w" by simp
  have "time_mode (self (snd (configureMotor reg dev (last_motor_name (self w)) ?w1))) =
          time_mode (self ?w1)"
    using configureMotor_frame [of reg dev "last_motor_name (self w)" ?w1] by blast
  with c have w2m: "time_mode (self w2)" by simp
  have nomis: "?S = (case r of Inl e \<Rightarrow> Inl e | Inr u \<Rightarrow> Inr (), w2) \<and>
      fst (SynchOne_table reg dev axis configuration w) =
        (case r of Inl e \<Rightarrow> Inl e | Inr u \<Rightarrow> Inr None)"
    if "Repeats g \<le> 1" "\<not> mismatch"
    using t that c by (cases r) (auto simp: SynchOne_def mismatch_def)
  have tm: "time_mode (self (snd ?S))" if le: "Repeats g \<le> 1"
  proof (cases mismatch)
    case True
    from mis [OF le True] show ?thesis by simp
  next
    case False
    from nomis [OF le False] w2m show ?thesis by simp
  qed
  have nt: "\<forall>tbl. fst (SynchOne_table reg dev axis configuration w) \<noteq> Inr (Some tbl)"
    if le: "Repeats g \<le> 1"
  proof (cases mismatch)
    case True
    with t le show ?thesis by (simp add: mismatch_def)
  next
    case False
    from nomis [OF le False] show ?thesis by (cases r) simp_all
  qed
  have up: "filter is_upload (trace (snd ?S)) = filter is_upload (trace w)"
    if le: "Repeats g \<le> 1"
  proof (cases mismatch)
    case True
    from mis [OF le True] show ?thesis by simp
  next
    case False
    from nomis [OF le False] w2t show ?thesis by simp
  qed
  have ok: "?S = (Inr (), w\<lparr>self := (self w)\<lparr>time_mode := True, last_motor_name := Some m,
                     motor_axis := Some a, motor_spu := spu, motor_offset := off,
                     motor_sign := sg\<rparr>\<rparr>)"
    if le: "Repeats g \<le> 1" and nm: "\<not> mismatch"
      and ax: "axis_prop reg m = Some a" and cal: "calib reg m = Some (spu, off, sg)"
  proof -
    have m1: "(case last_motor_name (self w) of None \<Rightarrow> DefaultMotor (self ?w1)
               | Some x \<Rightarrow> x) = m"
      by (simp add: m_def split: option.split)
    have "configureMotor reg dev (last_motor_name (self w)) ?w1 =
        (Inr (), ?w1\<lparr>self := (self ?w1)\<lparr>last_motor_name := Some m,
                     motor_axis := Some a, motor_spu := spu, motor_offset := off,
                     motor_sign := sg\<rparr>\<rparr>)"
      using configureMotor_resolved [where reg = reg and mn = "last_motor_name (self w)"
          and w = ?w1 and a = a and spu = spu and off = off and sg = sg and dev = dev]
        ax cal unfolding m1 by simp
    with c have "r = Inr ()" and
      "w2 = w\<lparr>self := (self w)\<lparr>time_mode := True, last_motor_name := Some m,
                     motor_axis := Some a, motor_spu := spu, motor_offset := off,
                     motor_sign := sg\<rparr>\<rparr>"
      by simp_all
    with nomis [OF le nm] show ?thesis by simp
  qed
  from many tm nt up mis ok show ?thesis by blast
qed

text \<open>
  The theorem at the controller bound to \<open>m1\<close>, with two points and with one.
\<close>

theorem SynchOne_by_time_witness:
  "SynchOne reg_m dev_ok 1 [req_time 2] w_m1 = (Inl ConfigurationError_by_time, w_m1) \<and>
   SynchOne reg_m dev_ok 1 [req_time 1] w_m1 = (Inr (), w_time) \<and>
   time_mode (self w_time) \<and> trace w_time = trace w_m1"
proof -
  have i: "Initial (req_time 2) = None" "Initial (req_time 1) = None"
    and r: "1 < Repeats (req_time 2)" "Repeats (req_time 1) \<le> 1"
    by (simp_all add: req_time_def)
  from SynchOne_by_time [where others = "[]" and reg = reg_m and dev = dev_ok and axis = 1
        and w = w_m1, OF refl i(1)] r(1)
  have many: "SynchOne reg_m dev_ok 1 [req_time 2] w_m1 = (Inl ConfigurationError_by_time, w_m1)"
    by simp
  have nm: "\<not> (\<not> use_master_out (self w_m1) \<and>
                last_motor_name (self w_m1) \<noteq> Some (DefaultMotor (self w_m1)))"
    by (simp add: concrete_defs)
  have "SynchOne reg_m dev_ok 1 [req_time 1] w_m1 =
          (Inr (), w_m1\<lparr>self := (self w_m1)\<lparr>time_mode := True,
             last_motor_name := Some (case last_motor_name (self w_m1) of
                                        None \<Rightarrow> DefaultMotor (self w_m1) | Some x \<Rightarrow> x),
             motor_axis := Some 1, motor_spu := 1000, motor_offset := 0, motor_sign := 1\<rparr>\<rparr>)"
    using SynchOne_by_time [where others = "[]" and reg = reg_m and dev = dev_ok and axis = 1
        and w = w_m1 and a = 1 and spu = 1000 and off = 0 and sg = 1, OF refl i(2)]
      r(2) nm w_m1_resolved(2,3) by blast
  then have one: "SynchOne reg_m dev_ok 1 [req_time 1] w_m1 = (Inr (), w_time)"
    by (simp add: concrete_defs)
  from many one show ?thesis by (simp add: concrete_defs)
qed

text \<open>
  The claim as stated, that a request by time with one point at most configures the
  motor again and returns, fails with the auxiliary outputs when \<^verbatim>\<open>setMasterMotor\<close> has
  bound \<open>m2\<close> and the default motor is \<open>m1\<close>: \<^verbatim>\<open>SynchOne\<close> raises the error of the cable.
\<close>

theorem SynchOne_by_time_cable_mismatch:
  "setMasterMotor reg_m dev_ok 1 (Some ''m2'') w_aux = (Inr (), w_aux_m2) \<and>
   Initial (req_time 1) = None \<and> Repeats (req_time 1) \<le> 1 \<and>
   last_motor_name (self w_aux_m2) = Some ''m2'' \<and>
   SynchOne reg_m dev_ok 1 [req_time 1] w_aux_m2 =
     (Inl ConfigurationError_cable, w_aux_m2\<lparr>self := (self w_aux_m2)\<lparr>time_mode := True\<rparr>\<rparr>)"
  by (simp add: SynchOne_def SynchOne_table_def Let_def ConfigurationError_cable_def
      setMasterMotor_def configureMotor_def concrete_defs)

subsection \<open>C10: the auxiliary outputs before any motor is bound\<close>

text \<open>
  Claim C10, as amended. With the auxiliary outputs and no motor bound yet, every call
  of \<^verbatim>\<open>SynchOne\<close> fails and binds no motor: with the error of the cable for every
  request by position and for every request by time with one point at most, and with
  the error of the multiple triggers by time for a request by time with more than one
  point. \<^verbatim>\<open>_configureMotor\<close> with no name would have bound the default motor.
\<close>

theorem SynchOne_unbound_aux:
  assumes aux: "\<not> use_master_out (self w)" and unb: "last_motor_name (self w) = None"
    and conf: "configuration = g # others"
  shows "fst (SynchOne reg dev axis configuration w) =
           (if Initial g = None \<and> 1 < Repeats g then Inl ConfigurationError_by_time
            else Inl ConfigurationError_cable) \<and>
         last_motor_name (self (snd (SynchOne reg dev axis configuration w))) = None \<and>
         trace (snd (SynchOne reg dev axis configuration w)) = trace w \<and>
         last_motor_name (self (snd (configureMotor reg dev None w))) =
           Some (DefaultMotor (self w))"
proof -
  have cm: "last_motor_name (self (snd (configureMotor reg dev None w))) =
           Some (DefaultMotor (self w))"
    by (simp add: configureMotor_def Let_def split: option.split prod.split)
  have "SynchOne_table reg dev axis configuration w =
      (if Initial g = None \<and> 1 < Repeats g then (Inl ConfigurationError_by_time, w)
       else (Inl ConfigurationError_cable,
             w\<lparr>self := (self w)\<lparr>time_mode := (Initial g = None)\<rparr>\<rparr>))"
  proof (cases "Initial g")
    case None
    with aux unb show ?thesis
      unfolding SynchOne_table_def conf list.case Let_def
      by (simp add: ConfigurationError_by_time_def ConfigurationError_cable_def)
  next
    case (Some ini)
    with aux unb show ?thesis
      unfolding SynchOne_table_def conf list.case Let_def
      by (simp add: ConfigurationError_cable_def)
  qed
  then have "fst (SynchOne reg dev axis configuration w) =
           (if Initial g = None \<and> 1 < Repeats g then Inl ConfigurationError_by_time
            else Inl ConfigurationError_cable)"
    and "last_motor_name (self (snd (SynchOne reg dev axis configuration w))) = None"
    and "trace (snd (SynchOne reg dev axis configuration w)) = trace w"
    using unb by (simp_all add: SynchOne_def)
  with cm show ?thesis by blast
qed

text \<open>
  The theorem at a new controller with auxiliary outputs, for a request by time and a
  request by position.
\<close>

theorem SynchOne_unbound_aux_witness:
  "\<not> use_master_out (self w_aux) \<and> last_motor_name (self w_aux) = None \<and>
   fst (SynchOne reg_m dev_ok 1 [req_time 1] w_aux) = Inl ConfigurationError_cable \<and>
   fst (SynchOne reg_m dev_ok 1 [req_pos 10 5] w_aux) = Inl ConfigurationError_cable \<and>
   last_motor_name (self (snd (configureMotor reg_m dev_ok None w_aux))) = Some ''m1''"
proof -
  have aux: "\<not> use_master_out (self w_aux)" and unb: "last_motor_name (self w_aux) = None"
    and d: "DefaultMotor (self w_aux) = ''m1''"
    by (simp_all add: concrete_defs)
  from SynchOne_unbound_aux [where reg = reg_m and dev = dev_ok and axis = 1
        and g = "req_time 1" and others = "[]", OF aux unb refl]
  have t: "fst (SynchOne reg_m dev_ok 1 [req_time 1] w_aux) = Inl ConfigurationError_cable"
    and c: "last_motor_name (self (snd (configureMotor reg_m dev_ok None w_aux))) = Some ''m1''"
    by (simp_all add: req_time_def d)
  from SynchOne_unbound_aux [where reg = reg_m and dev = dev_ok and axis = 1
        and g = "req_pos 10 5" and others = "[]", OF aux unb refl]
  have p: "fst (SynchOne reg_m dev_ok 1 [req_pos 10 5] w_aux) = Inl ConfigurationError_cable"
    by (simp add: req_pos_def)
  from aux unb t p c show ?thesis by simp
qed

text \<open>
  The claim as stated, the error of the cable for every call, fails for a request by
  time with two points: the error is the one of the multiple triggers by time.
\<close>

theorem SynchOne_unbound_aux_by_time:
  "\<not> use_master_out (self w_aux) \<and> last_motor_name (self w_aux) = None \<and>
   SynchOne reg_m dev_ok 1 [req_time 2] w_aux = (Inl ConfigurationError_by_time, w_aux) \<and>
   ConfigurationError_by_time \<noteq> ConfigurationError_cable"
  by (simp add: SynchOne_def SynchOne_table_def Let_def ConfigurationError_cable_def
      ConfigurationError_by_time_def concrete_defs)

end
